theory Spec2Isabelle
  imports Main
begin

section \<open>Go strings and the library functions the parser calls\<close>

text \<open>
  A Go string is a sequence of bytes, here a \<open>string\<close> (a list of 8-bit characters);
  text beyond ASCII is its UTF-8 encoding. The functions of package \<open>strings\<close> that
  the parser calls are written out below from their documented behaviour.
\<close>

definition backtick :: char where
  "backtick = CHR 0x60"

definition newline :: char where
  "newline = CHR 0x0A"

definition fence :: string where
  "fence = [backtick, backtick, backtick]"

text \<open>The constant \<open>trimValues\<close> of the source: underscore, star, backtick, space.\<close>

definition trimValues :: string where
  "trimValues = [CHR ''_'', CHR ''*'', backtick, CHR '' '']"

text \<open>\<open>strings.HasPrefix\<close>.\<close>

fun HasPrefix :: "string \<Rightarrow> string \<Rightarrow> bool" where
  "HasPrefix s [] = True"
| "HasPrefix [] (c # cs) = False"
| "HasPrefix (x # xs) (c # cs) = (x = c \<and> HasPrefix xs cs)"

text \<open>
  White space as \<open>unicode.IsSpace\<close> has it: the six ASCII characters, and the runes
  U+0085, U+00A0, U+1680, U+2000 to U+200A, U+2028, U+2029, U+202F, U+205F and U+3000,
  listed by their UTF-8 encodings. Each encoding starts with a lead byte, so it is
  decoded as that rune wherever it stands in a string.
\<close>

definition asciiSpace :: "char \<Rightarrow> bool" where
  "asciiSpace c = (c \<in> set [CHR 0x09, CHR 0x0A, CHR 0x0B, CHR 0x0C, CHR 0x0D, CHR 0x20])"

definition wideSpaces :: "string list" where
  "wideSpaces =
    [[CHR 0xC2, CHR 0x85], [CHR 0xC2, CHR 0xA0], [CHR 0xE1, CHR 0x9A, CHR 0x80],
     [CHR 0xE2, CHR 0x80, CHR 0x80], [CHR 0xE2, CHR 0x80, CHR 0x81],
     [CHR 0xE2, CHR 0x80, CHR 0x82], [CHR 0xE2, CHR 0x80, CHR 0x83],
     [CHR 0xE2, CHR 0x80, CHR 0x84], [CHR 0xE2, CHR 0x80, CHR 0x85],
     [CHR 0xE2, CHR 0x80, CHR 0x86], [CHR 0xE2, CHR 0x80, CHR 0x87],
     [CHR 0xE2, CHR 0x80, CHR 0x88], [CHR 0xE2, CHR 0x80, CHR 0x89],
     [CHR 0xE2, CHR 0x80, CHR 0x8A], [CHR 0xE2, CHR 0x80, CHR 0xA8],
     [CHR 0xE2, CHR 0x80, CHR 0xA9], [CHR 0xE2, CHR 0x80, CHR 0xAF],
     [CHR 0xE2, CHR 0x81, CHR 0x9F], [CHR 0xE3, CHR 0x80, CHR 0x80]]"

text \<open>
  The width in bytes of the white-space rune that starts \<open>s\<close>, 0 when \<open>s\<close> does not
  start with one. The table is a parameter so that the same function reads a string
  from its end (on the reversed string, with the reversed encodings).
\<close>

fun spaceWidth :: "string list \<Rightarrow> string \<Rightarrow> nat" where
  "spaceWidth tbl [] = 0"
| "spaceWidth tbl (c # cs) =
     (if asciiSpace c then 1
      else (case find (HasPrefix (c # cs)) tbl of Some w \<Rightarrow> length w | None \<Rightarrow> 0))"

function dropSpace :: "string list \<Rightarrow> string \<Rightarrow> string" where
  "dropSpace tbl s =
     (if spaceWidth tbl s = 0 then s else dropSpace tbl (drop (spaceWidth tbl s) s))"
  by pat_completeness auto
termination
proof (relation "measure (\<lambda>(tbl, s). length s)")
  show "wf (measure (\<lambda>(tbl :: string list, s :: string). length s))"
    by simp
next
  fix tbl :: "string list" and s :: string
  assume w: "spaceWidth tbl s \<noteq> 0"
  then have "s \<noteq> []"
    by (cases s) auto
  with w show "((tbl, drop (spaceWidth tbl s) s), (tbl, s)) \<in> measure (\<lambda>(tbl, s). length s)"
    by simp
qed

declare dropSpace.simps [simp del]

text \<open>\<open>strings.TrimSpace\<close>: leading and trailing white space removed.\<close>

definition TrimSpace :: "string \<Rightarrow> string" where
  "TrimSpace s = rev (dropSpace (map rev wideSpaces) (rev (dropSpace wideSpaces s)))"

text \<open>
  \<open>strings.Fields\<close>: the maximal runs of bytes that hold no white space, in order.
  \<open>fieldsFrom cur s\<close> has read the bytes \<open>cur\<close> of the field it is in.
\<close>

function fieldsFrom :: "string \<Rightarrow> string \<Rightarrow> string list" where
  "fieldsFrom cur s =
     (if s = [] then (if cur = [] then [] else [cur])
      else if spaceWidth wideSpaces s = 0 then fieldsFrom (cur @ [hd s]) (tl s)
      else (if cur = [] then [] else [cur]) @ fieldsFrom [] (drop (spaceWidth wideSpaces s) s))"
  by pat_completeness auto
termination
proof (relation "measure (\<lambda>(cur, s). length s)")
  show "wf (measure (\<lambda>(cur :: string, s :: string). length s))"
    by simp
next
  fix cur s :: string
  assume "s \<noteq> []"
  then show "((cur @ [hd s], tl s), (cur, s)) \<in> measure (\<lambda>(cur, s). length s)"
    by simp
next
  fix cur s :: string
  assume "s \<noteq> []" and "spaceWidth wideSpaces s \<noteq> 0"
  then show "(([], drop (spaceWidth wideSpaces s) s), (cur, s)) \<in> measure (\<lambda>(cur, s). length s)"
    by simp
qed

declare fieldsFrom.simps [simp del]

definition Fields :: "string \<Rightarrow> string list" where
  "Fields s = fieldsFrom [] s"

text \<open>\<open>strings.Join\<close>.\<close>

fun Join :: "string list \<Rightarrow> string \<Rightarrow> string" where
  "Join [] sep = []"
| "Join [x] sep = x"
| "Join (x # y # ys) sep = x @ sep @ Join (y # ys) sep"

text \<open>\<open>strings.Count s sub\<close> for a separator \<open>sub\<close> of one byte.\<close>

definition Count :: "string \<Rightarrow> char \<Rightarrow> nat" where
  "Count s c = length (filter (\<lambda>x. x = c) s)"

text \<open>
  \<open>strings.Cut s sep\<close> for a separator of one byte: the text before the first
  separator, the text after it, and whether there is one.
\<close>

fun Cut :: "string \<Rightarrow> char \<Rightarrow> string \<times> string \<times> bool" where
  "Cut [] sep = ([], [], False)"
| "Cut (c # cs) sep =
     (if c = sep then ([], cs, True)
      else (case Cut cs sep of (before, after, found) \<Rightarrow>
              if found then (c # before, after, True) else (c # cs, [], False)))"

text \<open>
  \<open>strings.Split s sep\<close> for a separator of one byte: the pieces between the
  separators, empty pieces included; one piece more than there are separators.
\<close>

fun Split :: "string \<Rightarrow> char \<Rightarrow> string list" where
  "Split [] sep = [[]]"
| "Split (c # cs) sep =
     (if c = sep then [] # Split cs sep
      else (case Split cs sep of [] \<Rightarrow> [[c]] | x # xs \<Rightarrow> (c # x) # xs))"

text \<open>
  \<open>strings.Trim s cutset\<close> for an ASCII cutset: the bytes of the cutset removed from
  both ends.
\<close>

definition Trim :: "string \<Rightarrow> string \<Rightarrow> string" where
  "Trim s cutset =
     rev (dropWhile (\<lambda>c. c \<in> set cutset) (rev (dropWhile (\<lambda>c. c \<in> set cutset) s)))"

text \<open>
  Letter case. \<open>lowerByte\<close> maps an ASCII capital to its small letter.
  \<open>strings.ToLower\<close> maps each rune to lower case; the runes whose lower case is an
  ASCII letter are the ASCII capitals, U+0130 (to \<open>i\<close>) and U+212A (to \<open>k\<close>). Every
  other rune beyond ASCII, and every byte that is no valid UTF-8, comes out as bytes
  beyond ASCII again; the model leaves those bytes as they are, which is all that a
  comparison with the ASCII keys of \<open>attMap\<close> can see.
\<close>

definition lowerByte :: "char \<Rightarrow> char" where
  "lowerByte c =
     (case map_of (zip ''ABCDEFGHIJKLMNOPQRSTUVWXYZ'' ''abcdefghijklmnopqrstuvwxyz'') c of
        Some l \<Rightarrow> l | None \<Rightarrow> c)"

fun ToLower :: "string \<Rightarrow> string" where
  "ToLower [] = []"
| "ToLower (c # cs) =
     (if HasPrefix (c # cs) [CHR 0xC4, CHR 0xB0] then CHR ''i'' # ToLower (drop 1 cs)
      else if HasPrefix (c # cs) [CHR 0xE2, CHR 0x84, CHR 0xAA] then CHR ''k'' # ToLower (drop 2 cs)
      else lowerByte c # ToLower cs)"

text \<open>
  \<open>strings.EqualFold\<close>: equality under simple case folding. The runes that fold
  with an ASCII letter are the letter's other case, U+212A (with \<open>k\<close>) and U+017F
  (with \<open>s\<close>); \<open>foldCase\<close> maps each of them to the small letter and leaves
  every other byte beyond ASCII as it is. So the model is \<open>EqualFold\<close> whenever one
  of the two strings is ASCII, as the section name given to \<open>NewParser\<close> is in every
  document evaluated below. It is not \<open>EqualFold\<close> on two strings that both hold
  letters beyond ASCII in different cases: Go folds those too, the model compares
  their bytes. No statement below depends on how two such names compare.
\<close>

fun foldCase :: "string \<Rightarrow> string" where
  "foldCase [] = []"
| "foldCase (c # cs) =
     (if HasPrefix (c # cs) [CHR 0xE2, CHR 0x84, CHR 0xAA] then CHR ''k'' # foldCase (drop 2 cs)
      else if HasPrefix (c # cs) [CHR 0xC5, CHR 0xBF] then CHR ''s'' # foldCase (drop 1 cs)
      else lowerByte c # foldCase cs)"

definition EqualFold :: "string \<Rightarrow> string \<Rightarrow> bool" where
  "EqualFold s t = (foldCase s = foldCase t)"

section \<open>The line scanner\<close>

text \<open>
  \<open>bufio.Scanner\<close> with its default split function \<open>ScanLines\<close>: the lines the
  source still holds, the error the source reports once they are read (\<open>None\<close> for a
  plain end of input), the last line scanned (\<open>Text()\<close>) and the error recorded when
  scanning stopped (\<open>Err()\<close>, which stays \<open>nil\<close> at a plain end of input).
\<close>

type_synonym ioerr = string

record Scanner =
  pending :: "string list"
  failure :: "ioerr option"
  token :: string
  err :: "ioerr option"

definition Scan :: "Scanner \<Rightarrow> bool \<times> Scanner" where
  "Scan sc =
     (case pending sc of
        [] \<Rightarrow> (False, sc\<lparr>token := [], err := failure sc\<rparr>)
      | l # ls \<Rightarrow> (True, sc\<lparr>pending := ls, token := l\<rparr>))"

text \<open>
  The lines of a document as \<open>ScanLines\<close> cuts them: at each newline, a final line
  with no newline included when it is not empty, one trailing carriage return dropped
  from each. A line of \<open>maxScanTokenSize\<close> bytes or more stops the scanner with its
  error \<open>ErrTooLong\<close>.
\<close>

definition dropCR :: "string \<Rightarrow> string" where
  "dropCR l = (if l \<noteq> [] \<and> last l = CHR 0x0D then butlast l else l)"

fun splitLines :: "string \<Rightarrow> string \<Rightarrow> string list" where
  "splitLines cur [] = (if cur = [] then [] else [cur])"
| "splitLines cur (c # cs) =
     (if c = newline then cur # splitLines [] cs else splitLines (cur @ [c]) cs)"

definition maxScanTokenSize :: nat where
  "maxScanTokenSize = 65536"

definition ErrTooLong :: ioerr where
  "ErrTooLong = ''bufio.Scanner: token too long''"

text \<open>
  \<open>bufio.NewScanner\<close> on a reader that delivers the bytes \<open>doc\<close> and then reports
  \<open>rerr\<close> (\<open>None\<close>: the end of input).
\<close>

definition NewScanner :: "string \<Rightarrow> ioerr option \<Rightarrow> Scanner" where
  "NewScanner doc rerr =
     (let raw = splitLines [] doc;
          ok = takeWhile (\<lambda>l. length l < maxScanTokenSize) raw
      in \<lparr>pending = map dropCR ok,
          failure = (if length ok < length raw then Some ErrTooLong else rerr),
          token = [], err = None\<rparr>)"

section \<open>Tasks, errors and the parser state\<close>

text \<open>
  Modelled from the spec: the record \<open>models.Task\<close>, whose declaration (package
  \<open>models\<close>) is not among the sources. The fields are those the spec's data model
  lists; \<open>emptyTask\<close> is the zero value \<open>models.Task{}\<close>.
\<close>

record Task =
  Name :: string
  Description :: "string list"
  Script :: string
  Env :: "string list"
  Dir :: string
  DependsOn :: "string list"
  Inputs :: "string list"

definition emptyTask :: Task where
  "emptyTask = \<lparr>Name = [], Description = [], Script = [], Env = [], Dir = [],
                 DependsOn = [], Inputs = []\<rparr>"

text \<open>
  The errors of the parser, one constructor for each message of the source:
  \<^item> \<open>ErrNoTasksHeading\<close>: "no xc block found";
  \<^item> \<open>ErrDirectoryTwice n\<close>: "directory appears more than once for n";
  \<^item> \<open>ErrBlockExists n\<close>: "command block already exists for task n";
  \<^item> \<open>ErrBlockNotEnded n\<close>: "command block in task n was not ended";
  \<^item> \<open>ErrNoCommands n\<close>: "task n has no commands or required tasks";
  \<^item> \<open>ErrReadFile e\<close>: "failed to read file: e", wrapping the scanner's \<open>Err()\<close>
    (\<open>None\<close> when that is \<open>nil\<close>).
\<close>

datatype error =
    ErrNoTasksHeading
  | ErrDirectoryTwice string
  | ErrBlockExists string
  | ErrBlockNotEnded string
  | ErrNoCommands string
  | ErrReadFile "ioerr option"

record parser =
  scanner :: Scanner
  tasks :: "Task list"
  currTask :: Task
  rootHeadingLevel :: int
  nextLine :: string
  currentLine :: string
  reachedEnd :: bool

section \<open>The parser\<close>

text \<open>
  Each method of the source is a function from the parser state to its results and
  the new state.
\<close>

definition scan :: "parser \<Rightarrow> bool \<times> parser" where
  "scan p =
     (if reachedEnd p then (False, p)
      else (let p1 = p\<lparr>currentLine := nextLine p\<rparr>;
                r = Scan (scanner p1)
            in if \<not> fst r then (True, p1\<lparr>scanner := snd r, reachedEnd := True\<rparr>)
               else (True, p1\<lparr>scanner := snd r, nextLine := token (snd r)\<rparr>)))"

text \<open>
  \<open>stringOnlyContains\<close>. The source ranges over the byte offsets at which the runes
  of \<open>input\<close> start and reads the slice of runes at each offset. Up to and including
  the first rune that is not one ASCII byte, offset and index agree; that rune differs
  from an ASCII \<open>matcher\<close>, so the loop returns false there. Both calls pass an
  ASCII matcher, for which the function is therefore the test of every byte.
\<close>

definition stringOnlyContains :: "string \<Rightarrow> char \<Rightarrow> bool" where
  "stringOnlyContains input matcher =
     (if length input = 0 then False else list_all (\<lambda>c. c = matcher) input)"

definition parseAltHeading :: "bool \<Rightarrow> parser \<Rightarrow> (bool \<times> int \<times> string) \<times> parser" where
  "parseAltHeading advance p =
     (let t = TrimSpace (currentLine p);
          n = TrimSpace (nextLine p);
          r0 = (False, 0, []);
          r1 = (if stringOnlyContains n (CHR ''-'') then (True, 2, t) else r0);
          r2 = (if stringOnlyContains n (CHR ''='') then (True, 1, t) else r1)
      in if \<not> advance \<or> \<not> fst r2 then (r2, p)
         else (r2, snd (scan (snd (scan p)))))"

definition parseHeading :: "bool \<Rightarrow> parser \<Rightarrow> (bool \<times> int \<times> string) \<times> parser" where
  "parseHeading advance p =
     (let a = parseAltHeading advance p
      in if fst (fst a) then a
         else (case Fields (TrimSpace (currentLine (snd a))) of
                 s0 # s1 # ss \<Rightarrow>
                   if length s0 < 1 \<or> Count s0 (CHR ''#'') \<noteq> length s0 then a
                   else (let r = (True, int (length s0), Join (s1 # ss) '' '')
                         in if \<not> advance then (r, snd a) else (r, snd (scan (snd a))))
               | _ \<Rightarrow> a))"

datatype AttributeType =
    AttributeTypeEnv
  | AttributeTypeDir
  | AttributeTypeReq
  | AttributeTypeInp

definition attMap :: "string \<Rightarrow> AttributeType option" where
  "attMap = map_of
     [(''req'', AttributeTypeReq),
      (''requires'', AttributeTypeReq),
      (''env'', AttributeTypeEnv),
      (''environment'', AttributeTypeEnv),
      (''dir'', AttributeTypeDir),
      (''directory'', AttributeTypeDir),
      (''inputs'', AttributeTypeInp)]"

definition parseAttribute :: "parser \<Rightarrow> (bool \<times> error option) \<times> parser" where
  "parseAttribute p =
     (case Cut (currentLine p) (CHR '':'') of (a, rest, found) \<Rightarrow>
        if \<not> found then ((False, None), p)
        else (case attMap (ToLower (Trim a trimValues)) of
                None \<Rightarrow> ((False, None), p)
              | Some ty \<Rightarrow>
                  (let vs = map (\<lambda>v. Trim v trimValues) (Split rest (CHR '',''));
                       t = currTask p
                   in case ty of
                        AttributeTypeInp \<Rightarrow>
                          ((True, None), snd (scan (p\<lparr>currTask := t\<lparr>Inputs := Inputs t @ vs\<rparr>\<rparr>)))
                      | AttributeTypeReq \<Rightarrow>
                          ((True, None), snd (scan (p\<lparr>currTask := t\<lparr>DependsOn := DependsOn t @ vs\<rparr>\<rparr>)))
                      | AttributeTypeEnv \<Rightarrow>
                          ((True, None), snd (scan (p\<lparr>currTask := t\<lparr>Env := Env t @ vs\<rparr>\<rparr>)))
                      | AttributeTypeDir \<Rightarrow>
                          if Dir t \<noteq> [] then ((False, Some (ErrDirectoryTwice (Name t))), p)
                          else ((True, None),
                                snd (scan (p\<lparr>currTask := t\<lparr>Dir := Trim rest trimValues\<rparr>\<rparr>))))))"

text \<open>
  The number of calls of \<open>scan\<close> that can still return true: every loop that goes on
  only after such a call ends.
\<close>

definition remaining :: "parser \<Rightarrow> nat" where
  "remaining p = (if reachedEnd p then 0 else Suc (length (pending (scanner p))))"

lemma scan_true_remaining: "fst (scan p) \<Longrightarrow> remaining (snd (scan p)) < remaining p"
  by (auto simp: scan_def remaining_def Scan_def Let_def split: list.splits)

lemma scan_eq_remaining: "(scanned, p1) = scan p \<Longrightarrow> scanned \<Longrightarrow> remaining p1 < remaining p"
  using scan_true_remaining [of p] by (metis fst_conv snd_conv)

lemma scan_remaining: "remaining (snd (scan p)) \<le> remaining p"
  by (auto simp: scan_def remaining_def Scan_def Let_def split: list.splits)

lemma remaining_currTask: "remaining (p\<lparr>currTask := t\<rparr>) = remaining p"
  by (simp add: remaining_def)

lemma parseAltHeading_remaining: "remaining (snd (parseAltHeading advance p)) \<le> remaining p"
  using scan_remaining [of p] scan_remaining [of "snd (scan p)"]
  by (auto simp: parseAltHeading_def Let_def)

lemma parseHeading_remaining: "remaining (snd (parseHeading advance p)) \<le> remaining p"
  using parseAltHeading_remaining [of advance p]
    scan_remaining [of "snd (parseAltHeading advance p)"]
  by (auto simp: parseHeading_def Let_def split: list.splits)

text \<open>
  The loop of \<open>parseCodeBlock\<close>; the flag returned is the variable \<open>ended\<close>.
\<close>

function codeBlockLoop :: "parser \<Rightarrow> bool \<times> parser" where
  "codeBlockLoop p =
     (case scan p of (scanned, p1) \<Rightarrow>
        if \<not> scanned then (False, p1)
        else if length (currentLine p1) \<ge> 3 \<and> take 3 (currentLine p1) = fence
          then (True, p1)
        else codeBlockLoop
               (if TrimSpace (currentLine p1) \<noteq> []
                then p1\<lparr>currTask := (currTask p1)
                       \<lparr>Script := Script (currTask p1) @ currentLine p1 @ [newline]\<rparr>\<rparr>
                else p1))"
  by pat_completeness auto
termination
  by (relation "measure remaining") (auto simp: remaining_currTask dest: scan_eq_remaining)

declare codeBlockLoop.simps [simp del]

definition parseCodeBlock :: "parser \<Rightarrow> error option \<times> parser" where
  "parseCodeBlock p =
     (let t = currentLine p
      in if length t < 3 \<or> take 3 t \<noteq> fence then (None, p)
         else if length (Script (currTask p)) > 0
           then (Some (ErrBlockExists (Name (currTask p))), p)
         else (let r = codeBlockLoop p
               in if \<not> fst r then (Some (ErrBlockNotEnded (Name (currTask (snd r)))), snd r)
                  else (None, snd (scan (snd r)))))"

text \<open>
  \<open>findTaskHeading\<close> returns the heading, the flag \<open>done\<close> and the error.
\<close>

function findTaskHeading :: "parser \<Rightarrow> (string \<times> bool \<times> error option) \<times> parser" where
  "findTaskHeading p =
     (case parseHeading True p of ((tok, level, text), p1) \<Rightarrow>
        if \<not> tok \<or> level > rootHeadingLevel p1 + 1
          then (case scan p1 of (scanned, p2) \<Rightarrow>
                  if \<not> scanned
                    then (([], False, Some (ErrReadFile (err (scanner p2)))), p2)
                  else findTaskHeading p2)
        else if level \<le> rootHeadingLevel p1 then (([], True, None), p1)
        else ((Trim text trimValues, False, None), p1))"
  by pat_completeness auto
termination
proof (relation "measure remaining")
  show "wf (measure remaining)"
    by simp
next
  fix p p1 p2 :: parser and h :: "bool \<times> int \<times> string" and scanned :: bool
  assume h: "(h, p1) = parseHeading True p" and s: "(scanned, p2) = scan p1"
    and more: "\<not> \<not> scanned"
  from h have "p1 = snd (parseHeading True p)"
    by (metis snd_conv)
  then have "remaining p1 \<le> remaining p"
    by (simp add: parseHeading_remaining)
  moreover from s more have "remaining p2 < remaining p1"
    by (simp add: scan_eq_remaining)
  ultimately show "(p2, p) \<in> measure remaining"
    by simp
qed

declare findTaskHeading.simps [simp del]

text \<open>
  The loop of \<open>parseTaskBody\<close> goes on after \<open>parseAttribute\<close> has recognised
  a line whether or not the cursor moved, so it need not end: the result is \<open>None\<close>
  when it does not.
\<close>

partial_function (option) parseTaskBody :: "parser \<Rightarrow> ((bool \<times> error option) \<times> parser) option" where
  "parseTaskBody p =
     (case parseAttribute p of ((ok, e), p1) \<Rightarrow>
        if ok then parseTaskBody p1
        else if e \<noteq> None then Some ((False, e), p1)
        else (case parseCodeBlock p1 of (e2, p2) \<Rightarrow>
          if e2 \<noteq> None then Some ((False, e2), p2)
          else (case parseHeading False p2 of ((tok, level, text), p3) \<Rightarrow>
            if tok \<and> level \<le> rootHeadingLevel p3 then Some ((False, None), p3)
            else if tok \<and> level = rootHeadingLevel p3 + 1 then Some ((True, None), p3)
            else (case scan (if TrimSpace (currentLine p3) \<noteq> []
                             then p3\<lparr>currTask := (currTask p3)
                                    \<lparr>Description := Description (currTask p3)
                                        @ [Trim (currentLine p3) trimValues]\<rparr>\<rparr>
                             else p3) of (scanned, p4) \<Rightarrow>
                    if \<not> scanned then Some ((False, None), p4) else parseTaskBody p4))))"

declare parseTaskBody.simps [code]

definition parseTask :: "parser \<Rightarrow> ((bool \<times> error option) \<times> parser) option" where
  "parseTask p =
     (case findTaskHeading (p\<lparr>currTask := emptyTask\<rparr>) of ((heading, done, e), p1) \<Rightarrow>
        if e \<noteq> None \<or> done then Some ((False, e), p1)
        else (case parseTaskBody (p1\<lparr>currTask := (currTask p1)\<lparr>Name := heading\<rparr>\<rparr>) of
                None \<Rightarrow> None
              | Some ((ok, e2), p2) \<Rightarrow>
                  if e2 \<noteq> None then Some ((ok, e2), p2)
                  else if length (Script (currTask p2)) < 1 \<and> length (DependsOn (currTask p2)) < 1
                    then Some ((ok, Some (ErrNoCommands (Name (currTask p2)))), p2)
                  else Some ((ok, None), p2\<lparr>tasks := tasks p2 @ [currTask p2]\<rparr>)))"

text \<open>\<open>Parse\<close> returns the tasks and the error.\<close>

partial_function (option) Parse :: "parser \<Rightarrow> ((Task list \<times> error option) \<times> parser) option" where
  "Parse p =
     (case parseTask p of
        None \<Rightarrow> None
      | Some ((ok, e), p1) \<Rightarrow>
          if e \<noteq> None \<or> \<not> ok then Some ((tasks p1, e), p1) else Parse p1)"

declare Parse.simps [code]

text \<open>
  \<open>NewParser\<close>: the loop that looks for the section heading, from the state of a
  parser just made. A reader is given by the bytes it delivers and the error it ends
  with (\<open>None\<close> at a plain end of input).
\<close>

function findRoot :: "string \<Rightarrow> parser \<Rightarrow> parser \<times> error option" where
  "findRoot heading p =
     (case scan p of (scanned, p0) \<Rightarrow>
        if \<not> scanned then (p0, Some ErrNoTasksHeading)
        else (case parseHeading True p0 of ((ok, level, text), p1) \<Rightarrow>
                if \<not> ok \<or> \<not> EqualFold (TrimSpace text) (TrimSpace heading)
                  then findRoot heading p1
                else (p1\<lparr>rootHeadingLevel := level\<rparr>, None)))"
  by pat_completeness auto
termination
proof (relation "measure (\<lambda>(heading, p). remaining p)")
  show "wf (measure (\<lambda>(heading :: string, p). remaining p))"
    by simp
next
  fix heading :: string and p p0 p1 :: parser and h :: "bool \<times> int \<times> string"
    and scanned :: bool
  assume s: "(scanned, p0) = scan p" and more: "\<not> \<not> scanned"
    and h: "(h, p1) = parseHeading True p0"
  from h have "p1 = snd (parseHeading True p0)"
    by (metis snd_conv)
  then have "remaining p1 \<le> remaining p0"
    by (simp add: parseHeading_remaining)
  moreover from s more have "remaining p0 < remaining p"
    by (simp add: scan_eq_remaining)
  ultimately show "((heading, p1), (heading, p)) \<in> measure (\<lambda>(heading, p). remaining p)"
    by simp
qed

declare findRoot.simps [simp del]

type_synonym reader = "string \<times> ioerr option"

definition NewReader :: "string \<Rightarrow> reader" where
  "NewReader doc = (doc, None)"

definition NewParser :: "reader \<Rightarrow> string \<Rightarrow> parser \<times> error option" where
  "NewParser r heading =
     findRoot heading
       \<lparr>scanner = NewScanner (fst r) (snd r), tasks = [], currTask = emptyTask,
        rootHeadingLevel = 0, nextLine = [], currentLine = [], reachedEnd = False\<rparr>"

text \<open>
  The two entry points as a caller uses them on a document held in memory:
  \<open>NewParser\<close> on \<open>strings.NewReader doc\<close>, then \<open>Parse\<close> unless \<open>NewParser\<close>
  failed. The result is the task list and the error, \<open>None\<close> when \<open>Parse\<close> does not
  return.
\<close>

definition parseDocument :: "string \<Rightarrow> string \<Rightarrow> (Task list \<times> error option) option" where
  "parseDocument doc heading =
     (case NewParser (NewReader doc) heading of
        (p, Some e) \<Rightarrow> Some ([], Some e)
      | (p, None) \<Rightarrow> map_option fst (Parse p))"

section \<open>Words for the claims\<close>

text \<open>
  The test of \<open>parseTask\<close> on a task it is about to append: a script or a
  required task.
\<close>

definition hasCommands :: "Task \<Rightarrow> bool" where
  "hasCommands t = (\<not> (length (Script t) < 1 \<and> length (DependsOn t) < 1))"

text \<open>
  A parser inside a section of level 1 that has completed no task: \<open>cur\<close> is the
  current line, \<open>nxt\<close> the line after it and \<open>rest\<close> the lines not yet scanned.
\<close>

definition parserAt :: "string \<Rightarrow> string \<Rightarrow> string list \<Rightarrow> parser" where
  "parserAt cur nxt rest =
     \<lparr>scanner = \<lparr>pending = rest, failure = None, token = nxt, err = None\<rparr>,
      tasks = [], currTask = emptyTask, rootHeadingLevel = 1,
      nextLine = nxt, currentLine = cur, reachedEnd = False\<rparr>"

text \<open>
  Words for the claims about fenced blocks: a fence line, as both tests of
  \<open>parseCodeBlock\<close> have it; the lines that calls of \<open>scan\<close> will still make
  current, in order; and a block closed by a fence: the lines up to the first fence
  line among those still to come.
\<close>

definition isFence :: "string \<Rightarrow> bool" where
  "isFence l = (length l \<ge> 3 \<and> take 3 l = fence)"

definition pendingLines :: "parser \<Rightarrow> string list" where
  "pendingLines p = (if reachedEnd p then [] else nextLine p # pending (scanner p))"

definition closedBlock :: "parser \<Rightarrow> string list \<Rightarrow> string \<Rightarrow> string list \<Rightarrow> bool" where
  "closedBlock p block close rest =
     (pendingLines p = block @ close # rest \<and> list_all (\<lambda>l. \<not> isFence l) block \<and> isFence close)"

text \<open>
  Words for the claim about the two heading styles. \<open>markerHeading p n\<close> is the
  parser \<open>p\<close> with the line \<open>## build\<close> current and the line \<open>n\<close> next;
  \<open>underlineHeading p k n tk\<close> is \<open>p\<close> with the line \<open>build\<close> current, a line
  of \<open>k + 1\<close> characters \<open>-\<close> next and the line \<open>n\<close> put before the lines not yet
  scanned (\<open>tk\<close> is the scanner's last token, which no method reads before the next
  call of \<open>Scan\<close> replaces it).
\<close>

definition markerHeading :: "parser \<Rightarrow> string \<Rightarrow> parser" where
  "markerHeading p n = p\<lparr>currentLine := ''## build'', nextLine := n, reachedEnd := False\<rparr>"

definition underlineHeading :: "parser \<Rightarrow> nat \<Rightarrow> string \<Rightarrow> string \<Rightarrow> parser" where
  "underlineHeading p k n tk =
     p\<lparr>currentLine := ''build'', nextLine := replicate (Suc k) (CHR ''-''),
       reachedEnd := False,
       scanner := (scanner p)\<lparr>pending := n # pending (scanner p), token := tk\<rparr>\<rparr>"

section \<open>Evaluation on ASCII text\<close>

text \<open>
  On a byte below 0x80 the white-space functions need not consult the table of the
  wide runes. These equations evaluate them on the documents below.
\<close>

lemma asciiSpace_Char:
  "asciiSpace (Char b0 b1 b2 b3 b4 b5 b6 b7) =
     (\<not> b7 \<and> \<not> b6 \<and> \<not> b4 \<and>
       ((b5 \<and> \<not> b3 \<and> \<not> b2 \<and> \<not> b1 \<and> \<not> b0) \<or>
        (\<not> b5 \<and> b3 \<and> (if b2 then \<not> b1 else (b1 \<or> b0)))))"
  unfolding asciiSpace_def
  by (cases b0; cases b1; cases b2; cases b3; cases b4; cases b5; cases b6; cases b7; simp)

lemma rev_wideSpaces:
  "map rev wideSpaces =
    [[CHR 0x85, CHR 0xC2], [CHR 0xA0, CHR 0xC2], [CHR 0x80, CHR 0x9A, CHR 0xE1],
     [CHR 0x80, CHR 0x80, CHR 0xE2], [CHR 0x81, CHR 0x80, CHR 0xE2],
     [CHR 0x82, CHR 0x80, CHR 0xE2], [CHR 0x83, CHR 0x80, CHR 0xE2],
     [CHR 0x84, CHR 0x80, CHR 0xE2], [CHR 0x85, CHR 0x80, CHR 0xE2],
     [CHR 0x86, CHR 0x80, CHR 0xE2], [CHR 0x87, CHR 0x80, CHR 0xE2],
     [CHR 0x88, CHR 0x80, CHR 0xE2], [CHR 0x89, CHR 0x80, CHR 0xE2],
     [CHR 0x8A, CHR 0x80, CHR 0xE2], [CHR 0xA8, CHR 0x80, CHR 0xE2],
     [CHR 0xA9, CHR 0x80, CHR 0xE2], [CHR 0xAF, CHR 0x80, CHR 0xE2],
     [CHR 0x9F, CHR 0x81, CHR 0xE2], [CHR 0x80, CHR 0x80, CHR 0xE3]]"
  by (simp add: wideSpaces_def)

lemma spaceWidth_ascii:
  "spaceWidth wideSpaces (Char b0 b1 b2 b3 b4 b5 b6 False # cs) =
     (if asciiSpace (Char b0 b1 b2 b3 b4 b5 b6 False) then 1 else 0)"
  by (simp add: wideSpaces_def)

lemma spaceWidth_rev_ascii:
  "spaceWidth (map rev wideSpaces) (Char b0 b1 b2 b3 b4 b5 b6 False # cs) =
     (if asciiSpace (Char b0 b1 b2 b3 b4 b5 b6 False) then 1 else 0)"
  by (simp add: rev_wideSpaces)

lemma dropSpace_Nil: "dropSpace tbl [] = []"
  by (simp add: dropSpace.simps)

lemma dropSpace_ascii:
  "dropSpace wideSpaces (Char b0 b1 b2 b3 b4 b5 b6 False # cs) =
     (if asciiSpace (Char b0 b1 b2 b3 b4 b5 b6 False) then dropSpace wideSpaces cs
      else Char b0 b1 b2 b3 b4 b5 b6 False # cs)"
  by (subst dropSpace.simps) (simp add: spaceWidth_ascii del: spaceWidth.simps)

lemma dropSpace_rev_ascii:
  "dropSpace (map rev wideSpaces) (Char b0 b1 b2 b3 b4 b5 b6 False # cs) =
     (if asciiSpace (Char b0 b1 b2 b3 b4 b5 b6 False) then dropSpace (map rev wideSpaces) cs
      else Char b0 b1 b2 b3 b4 b5 b6 False # cs)"
  by (subst dropSpace.simps) (simp add: spaceWidth_rev_ascii del: spaceWidth.simps)

lemma fieldsFrom_Nil: "fieldsFrom cur [] = (if cur = [] then [] else [cur])"
  by (simp add: fieldsFrom.simps)

lemma fieldsFrom_ascii:
  "fieldsFrom cur (Char b0 b1 b2 b3 b4 b5 b6 False # cs) =
     (if asciiSpace (Char b0 b1 b2 b3 b4 b5 b6 False)
      then (if cur = [] then [] else [cur]) @ fieldsFrom [] cs
      else fieldsFrom (cur @ [Char b0 b1 b2 b3 b4 b5 b6 False]) cs)"
  by (subst fieldsFrom.simps) (simp add: spaceWidth_ascii del: spaceWidth.simps)

lemmas eval_strings =
  TrimSpace_def dropSpace_Nil dropSpace_ascii dropSpace_rev_ascii asciiSpace_Char
  Fields_def fieldsFrom_Nil fieldsFrom_ascii Count_def Trim_def trimValues_def
  lowerByte_def EqualFold_def newline_def fence_def backtick_def
  stringOnlyContains_def attMap_def

lemmas eval_parser =
  scan_def Scan_def parseAltHeading_def parseHeading_def parseAttribute_def
  codeBlockLoop.simps parseCodeBlock_def findTaskHeading.simps parseTaskBody.simps
  parseTask_def Parse.simps findRoot.simps NewParser_def NewReader_def
  parseDocument_def emptyTask_def NewScanner_def dropCR_def maxScanTokenSize_def Let_def

section \<open>What a step leaves unchanged\<close>

text \<open>
  No method but \<open>parseTask\<close> writes the task list, none but \<open>NewParser\<close> the level
  of the section heading, and none writes the name of the current task but
  \<open>parseTask\<close>.
\<close>

lemma scan_frame:
  "tasks (snd (scan p)) = tasks p"
  "currTask (snd (scan p)) = currTask p"
  "rootHeadingLevel (snd (scan p)) = rootHeadingLevel p"
  by (simp_all add: scan_def Let_def)

lemma parseAltHeading_frame:
  "tasks (snd (parseAltHeading advance p)) = tasks p"
  "currTask (snd (parseAltHeading advance p)) = currTask p"
  "rootHeadingLevel (snd (parseAltHeading advance p)) = rootHeadingLevel p"
  by (simp_all add: parseAltHeading_def Let_def scan_frame)

lemma parseHeading_frame:
  "tasks (snd (parseHeading advance p)) = tasks p"
  "currTask (snd (parseHeading advance p)) = currTask p"
  "rootHeadingLevel (snd (parseHeading advance p)) = rootHeadingLevel p"
  by (simp_all add: parseHeading_def Let_def scan_frame parseAltHeading_frame split: list.splits)

lemma parseAttribute_frame:
  "tasks (snd (parseAttribute p)) = tasks p"
  "Name (currTask (snd (parseAttribute p))) = Name (currTask p)"
  "rootHeadingLevel (snd (parseAttribute p)) = rootHeadingLevel p"
  by (simp_all add: parseAttribute_def Let_def scan_frame
      split: prod.splits option.splits AttributeType.splits)

lemma codeBlockLoop_frame:
  "tasks (snd (codeBlockLoop p)) = tasks p
   \<and> Name (currTask (snd (codeBlockLoop p))) = Name (currTask p)
   \<and> rootHeadingLevel (snd (codeBlockLoop p)) = rootHeadingLevel p"
proof (induction p rule: codeBlockLoop.induct)
  case (1 p)
  obtain scanned p1 where s: "scan p = (scanned, p1)"
    by (cases "scan p")
  then have p1: "tasks p1 = tasks p" "currTask p1 = currTask p"
    "rootHeadingLevel p1 = rootHeadingLevel p"
    using scan_frame [of p] by simp_all
  show ?case
  proof (cases "scanned \<and> \<not> (3 \<le> length (currentLine p1) \<and> take 3 (currentLine p1) = fence)")
    case True
    with 1 [of scanned p1] s p1 show ?thesis
      by (subst (1 2 3) codeBlockLoop.simps) (auto split: if_splits)
  next
    case False
    with s p1 show ?thesis
      by (subst (1 2 3) codeBlockLoop.simps) auto
  qed
qed

lemma parseCodeBlock_frame:
  "tasks (snd (parseCodeBlock p)) = tasks p"
  "Name (currTask (snd (parseCodeBlock p))) = Name (currTask p)"
  "rootHeadingLevel (snd (parseCodeBlock p)) = rootHeadingLevel p"
  by (simp_all add: parseCodeBlock_def Let_def codeBlockLoop_frame scan_frame)

lemma findTaskHeading_frame:
  "tasks (snd (findTaskHeading p)) = tasks p
   \<and> currTask (snd (findTaskHeading p)) = currTask p
   \<and> rootHeadingLevel (snd (findTaskHeading p)) = rootHeadingLevel p"
proof (induction p rule: findTaskHeading.induct)
  case (1 p)
  obtain tok level title p1 where h: "parseHeading True p = ((tok, level, title), p1)"
    by (cases "parseHeading True p") auto
  then have p1: "tasks p1 = tasks p" "currTask p1 = currTask p"
    "rootHeadingLevel p1 = rootHeadingLevel p"
    using parseHeading_frame [of True p] by simp_all
  obtain scanned p2 where s: "scan p1 = (scanned, p2)"
    by (cases "scan p1")
  then have p2: "tasks p2 = tasks p1" "currTask p2 = currTask p1"
    "rootHeadingLevel p2 = rootHeadingLevel p1"
    using scan_frame [of p1] by simp_all
  show ?case
  proof (cases "(\<not> tok \<or> rootHeadingLevel p1 + 1 < level) \<and> scanned")
    case True
    with 1 [of "(tok, level, title)" p1 tok "(level, title)" level title scanned p2] h s p1 p2
    show ?thesis
      by (subst (1 2 3) findTaskHeading.simps) auto
  next
    case False
    with h s p1 p2 show ?thesis
      by (subst (1 2 3) findTaskHeading.simps) auto
  qed
qed

lemma parseTaskBody_frame:
  assumes "parseTaskBody p = Some r"
  shows "tasks (snd r) = tasks p \<and> Name (currTask (snd r)) = Name (currTask p)
         \<and> rootHeadingLevel (snd r) = rootHeadingLevel p"
proof (rule parseTaskBody.raw_induct [where P = "\<lambda>p r. tasks (snd r) = tasks p
    \<and> Name (currTask (snd r)) = Name (currTask p)
    \<and> rootHeadingLevel (snd r) = rootHeadingLevel p", OF _ assms], goal_cases)
  case (1 body p r)
  obtain ok e p1 where a: "parseAttribute p = ((ok, e), p1)"
    by (cases "parseAttribute p") auto
  then have p1: "tasks p1 = tasks p" "Name (currTask p1) = Name (currTask p)"
    "rootHeadingLevel p1 = rootHeadingLevel p"
    using parseAttribute_frame [of p] by simp_all
  obtain e2 p2 where c: "parseCodeBlock p1 = (e2, p2)"
    by (cases "parseCodeBlock p1")
  then have p2: "tasks p2 = tasks p1" "Name (currTask p2) = Name (currTask p1)"
    "rootHeadingLevel p2 = rootHeadingLevel p1"
    using parseCodeBlock_frame [of p1] by simp_all
  obtain tok level title p3 where h: "parseHeading False p2 = ((tok, level, title), p3)"
    by (cases "parseHeading False p2") auto
  then have p3: "tasks p3 = tasks p2" "currTask p3 = currTask p2"
    "rootHeadingLevel p3 = rootHeadingLevel p2"
    using parseHeading_frame [of False p2] by simp_all
  define p3' where "p3' = (if TrimSpace (currentLine p3) \<noteq> []
       then p3\<lparr>currTask := (currTask p3)\<lparr>Description := Description (currTask p3)
                 @ [Trim (currentLine p3) trimValues]\<rparr>\<rparr> else p3)"
  obtain scanned p4 where s: "scan p3' = (scanned, p4)"
    by (cases "scan p3'")
  then have p4: "tasks p4 = tasks p3" "Name (currTask p4) = Name (currTask p3)"
    "rootHeadingLevel p4 = rootHeadingLevel p3"
    using scan_frame [of p3'] by (simp_all add: p3'_def split: if_splits)
  from 1(2) a c h s [unfolded p3'_def] p1 p2 p3 p4 1(1) [of p1 r] 1(1) [of p4 r] show ?case
    by (auto simp: parseAttribute_frame split: if_splits)
qed

lemma findRoot_tasks: "tasks (fst (findRoot heading p)) = tasks p"
proof (induction heading p rule: findRoot.induct)
  case (1 heading p)
  obtain scanned p0 where s: "scan p = (scanned, p0)"
    by (cases "scan p")
  then have p0: "tasks p0 = tasks p"
    using scan_frame(1) [of p] by simp
  obtain ok level title p1 where h: "parseHeading True p0 = ((ok, level, title), p1)"
    by (cases "parseHeading True p0") auto
  then have p1: "tasks p1 = tasks p0"
    using parseHeading_frame(1) [of True p0] by simp
  show ?case
  proof (cases "scanned \<and> (\<not> ok \<or> \<not> EqualFold (TrimSpace title) (TrimSpace heading))")
    case True
    with 1 [of scanned p0 "(ok, level, title)" p1 ok "(level, title)" level title] s h p0 p1
    show ?thesis
      by (subst findRoot.simps) auto
  next
    case False
    with s h p0 p1 show ?thesis
      by (subst findRoot.simps) auto
  qed
qed

lemma NewParser_tasks: "tasks (fst (NewParser r heading)) = []"
  by (simp add: NewParser_def findRoot_tasks)

section \<open>What Parse returns\<close>

lemma hasCommands_iff: "hasCommands t \<longleftrightarrow> Script t \<noteq> [] \<or> DependsOn t \<noteq> []"
  by (auto simp: hasCommands_def)

text \<open>
  One call of \<open>parseTask\<close> either appends one task, which has a script or a required
  task, or leaves the list as it was; it appends nothing when it returns an error.
\<close>

lemma parseTask_tasks:
  assumes "parseTask p = Some ((ok, e), p')"
  shows "if e = None \<and> ok then \<exists>t. tasks p' = tasks p @ [t] \<and> hasCommands t
         else tasks p' = tasks p \<or> (\<exists>t. tasks p' = tasks p @ [t] \<and> hasCommands t \<and> e = None)"
proof -
  obtain heading dn e1 p1
    where f: "findTaskHeading (p\<lparr>currTask := emptyTask\<rparr>) = ((heading, dn, e1), p1)"
    by (cases "findTaskHeading (p\<lparr>currTask := emptyTask\<rparr>)") auto
  then have p1: "tasks p1 = tasks p"
    using findTaskHeading_frame [of "p\<lparr>currTask := emptyTask\<rparr>"] by simp
  show ?thesis
  proof (cases "e1 \<noteq> None \<or> dn")
    case True
    with assms f p1 show ?thesis
      by (auto simp: parseTask_def)
  next
    case False
    with assms f obtain ok2 e2 p2
      where b: "parseTaskBody (p1\<lparr>currTask := (currTask p1)\<lparr>Name := heading\<rparr>\<rparr>)
                  = Some ((ok2, e2), p2)"
      by (auto simp: parseTask_def split: option.splits)
    from parseTaskBody_frame [OF b] p1 have p2: "tasks p2 = tasks p"
      by simp
    from assms f False b p2 show ?thesis
      by (auto simp: parseTask_def hasCommands_def split: if_splits)
  qed
qed

lemma parseTask_error_tasks:
  assumes "parseTask p = Some ((ok, Some e), p')"
  shows "tasks p' = tasks p"
  using parseTask_tasks [OF assms] by auto

text \<open>
  \<open>Parse\<close> returns the task list of its final state, which is the list it started
  from and the tasks appended since.
\<close>

lemma Parse_tasks:
  assumes "Parse p = Some r"
  shows "fst (fst r) = tasks (snd r)
         \<and> (\<exists>new. tasks (snd r) = tasks p @ new \<and> list_all hasCommands new)"
proof (rule Parse.raw_induct [where P = "\<lambda>p r. fst (fst r) = tasks (snd r)
     \<and> (\<exists>new. tasks (snd r) = tasks p @ new \<and> list_all hasCommands new)", OF _ assms],
    goal_cases)
  case (1 loop p r)
  from 1(2) obtain ok e p1 where t: "parseTask p = Some ((ok, e), p1)"
    by (auto split: option.splits)
  show ?case
  proof (cases "e \<noteq> None \<or> \<not> ok")
    case True
    with 1(2) t have r: "r = ((tasks p1, e), p1)"
      by auto
    from parseTask_tasks [OF t] True
    have "tasks p1 = tasks p @ [] \<or> (\<exists>t. tasks p1 = tasks p @ [t] \<and> hasCommands t)"
      by (auto split: if_splits)
    then have "\<exists>new. tasks p1 = tasks p @ new \<and> list_all hasCommands new"
    proof
      assume "tasks p1 = tasks p @ []"
      then show ?thesis
        by (intro exI [of _ "[]"]) simp
    next
      assume "\<exists>t. tasks p1 = tasks p @ [t] \<and> hasCommands t"
      then obtain t where "tasks p1 = tasks p @ [t]" "hasCommands t"
        by blast
      then show ?thesis
        by (intro exI [of _ "[t]"]) simp
    qed
    with r show ?thesis
      by simp
  next
    case False
    with 1(2) t have "loop p1 = Some r"
      by auto
    from 1(1) [OF this] obtain new where new: "fst (fst r) = tasks (snd r)"
      "tasks (snd r) = tasks p1 @ new" "list_all hasCommands new"
      by auto
    from parseTask_tasks [OF t] False obtain t where "tasks p1 = tasks p @ [t]" "hasCommands t"
      by auto
    with new have "tasks (snd r) = tasks p @ (t # new) \<and> list_all hasCommands (t # new)"
      by simp
    with new(1) show ?thesis
      by blast
  qed
qed


text \<open>An error in the body of a task, or a task with no commands, ends \<open>Parse\<close>.\<close>

lemma parseTask_body_error:
  assumes "findTaskHeading (q\<lparr>currTask := emptyTask\<rparr>) = ((h, False, None), p1)"
    and "parseTaskBody (p1\<lparr>currTask := (currTask p1)\<lparr>Name := h\<rparr>\<rparr>) = Some ((ok, Some e), p2)"
  shows "parseTask q = Some ((ok, Some e), p2) \<and> Parse q = Some ((tasks q, Some e), p2)"
proof -
  from assms have t: "parseTask q = Some ((ok, Some e), p2)"
    by (simp add: parseTask_def)
  from parseTask_error_tasks [OF t] t have "Parse q = Some ((tasks q, Some e), p2)"
    by (subst Parse.simps) simp
  with t show ?thesis
    by simp
qed

lemma parseTask_no_commands:
  assumes "findTaskHeading (q\<lparr>currTask := emptyTask\<rparr>) = ((h, False, None), p1)"
    and "parseTaskBody (p1\<lparr>currTask := (currTask p1)\<lparr>Name := h\<rparr>\<rparr>) = Some ((ok, None), p2)"
    and "Script (currTask p2) = []" and "DependsOn (currTask p2) = []"
  shows "parseTask q = Some ((ok, Some (ErrNoCommands h)), p2)
         \<and> Parse q = Some ((tasks q, Some (ErrNoCommands h)), p2)"
proof -
  from parseTaskBody_frame [OF assms(2)] have "Name (currTask p2) = h"
    by simp
  with assms have t: "parseTask q = Some ((ok, Some (ErrNoCommands h)), p2)"
    by (simp add: parseTask_def)
  from parseTask_error_tasks [OF t] t
  have "Parse q = Some ((tasks q, Some (ErrNoCommands h)), p2)"
    by (subst Parse.simps) simp
  with t show ?thesis
    by simp
qed

lemma parseDocument_ParseD:
  assumes "parseDocument doc heading = Some (ts, e)" and "ts \<noteq> []"
  shows "\<exists>p'. Parse (fst (NewParser (NewReader doc) heading)) = Some ((ts, e), p')"
  using assms by (auto simp: parseDocument_def split: prod.splits option.splits)

lemma parseDocument_tasks:
  assumes "parseDocument doc heading = Some (ts, e)"
  shows "list_all hasCommands ts"
proof (cases "ts = []")
  case True
  then show ?thesis
    by simp
next
  case False
  from parseDocument_ParseD [OF assms False] obtain p'
    where "Parse (fst (NewParser (NewReader doc) heading)) = Some ((ts, e), p')"
    by blast
  from Parse_tasks [OF this] show ?thesis
    by (auto simp: NewParser_tasks)
qed

section \<open>Documents evaluated\<close>

text \<open>
  The documents of the claims, parsed for the section \<open>Tasks\<close>. Each equation is the
  run of \<open>NewParser\<close> and \<open>Parse\<close> on the document, evaluated by rewriting.
\<close>

lemma eval_build:
  "parseDocument ''# Tasks\<newline>## build\<newline>req: test\<newline>\<newline>```\<newline>echo hi\<newline>```\<newline>'' ''Tasks''
   = Some ([\<lparr>Name = ''build'', Description = [[]], Script = ''echo hi\<newline>'', Env = [],
             Dir = [], DependsOn = [''test''], Inputs = []\<rparr>], None)"
  by (simp add: eval_strings eval_parser)

lemma eval_build_then_blank:
  "parseDocument ''# Tasks\<newline>## build\<newline>req: test\<newline>\<newline>```\<newline>echo hi\<newline>```\<newline>\<newline>'' ''Tasks''
   = Some ([\<lparr>Name = ''build'', Description = [], Script = ''echo hi\<newline>'', Env = [],
             Dir = [], DependsOn = [''test''], Inputs = []\<rparr>], None)"
  by (simp add: eval_strings eval_parser)

lemma eval_no_task:
  "parseDocument ''# Tasks\<newline>foo\<newline>'' ''Tasks'' = Some ([], Some (ErrReadFile None))"
  by (simp add: eval_strings eval_parser)

lemma eval_deep_heading:
  "parseDocument ''# Tasks\<newline>### deep\<newline>## build\<newline>req: x\<newline>\<newline>'' ''Tasks''
   = Some ([], Some (ErrReadFile None))"
  by (simp add: eval_strings eval_parser)

lemma eval_deep_heading_then_blank:
  "parseDocument ''# Tasks\<newline>### deep\<newline>\<newline>## build\<newline>req: x\<newline>\<newline>'' ''Tasks''
   = Some ([\<lparr>Name = ''build'', Description = [], Script = [], Env = [], Dir = [],
             DependsOn = [''x''], Inputs = []\<rparr>], None)"
  by (simp add: eval_strings eval_parser)

lemma eval_plain_line:
  "parseDocument ''# Tasks\<newline>deep\<newline>## build\<newline>req: x\<newline>\<newline>'' ''Tasks''
   = Some ([\<lparr>Name = ''build'', Description = [], Script = [], Env = [], Dir = [],
             DependsOn = [''x''], Inputs = []\<rparr>], None)"
  by (simp add: eval_strings eval_parser)


lemma eval_starred_heading:
  "parseDocument ''# Tasks\<newline>## **\<newline>req: x\<newline>\<newline>'' ''Tasks''
   = Some ([\<lparr>Name = [], Description = [], Script = [], Env = [], Dir = [],
             DependsOn = [''x''], Inputs = []\<rparr>], None)"
  by (simp add: eval_strings eval_parser)

lemma eval_req_only:
  "parseDocument ''# Tasks\<newline>## build\<newline>req: x\<newline>\<newline>'' ''Tasks''
   = Some ([\<lparr>Name = ''build'', Description = [], Script = [], Env = [], Dir = [],
             DependsOn = [''x''], Inputs = []\<rparr>], None)"
  by (simp add: eval_strings eval_parser)

lemma scan_pending_Cons:
  assumes "pendingLines p = l # ls"
  shows "fst (scan p)" and "currentLine (snd (scan p)) = l"
    and "pendingLines (snd (scan p)) = ls"
  using assms
  by (auto simp: pendingLines_def scan_def Scan_def Let_def split: if_splits list.splits)

lemma scan_pending_Nil:
  assumes "pendingLines p = []"
  shows "scan p = (False, p)"
  using assms by (simp add: pendingLines_def scan_def split: if_splits)

lemma pendingLines_currTask: "pendingLines (p\<lparr>currTask := t\<rparr>) = pendingLines p"
  by (simp add: pendingLines_def)

text \<open>The loop of \<open>parseCodeBlock\<close> on a closed block, and on lines with no fence.\<close>

lemma codeBlockLoop_closed:
  assumes "pendingLines p = block @ close # rest"
    and "list_all (\<lambda>l. \<not> isFence l) block" and "isFence close"
  shows "fst (codeBlockLoop p)
    \<and> Script (currTask (snd (codeBlockLoop p)))
        = Script (currTask p)
          @ concat (map (\<lambda>l. l @ [newline]) (filter (\<lambda>l. TrimSpace l \<noteq> []) block))
    \<and> currentLine (snd (codeBlockLoop p)) = close
    \<and> pendingLines (snd (codeBlockLoop p)) = rest"
  using assms
proof (induction block arbitrary: p)
  case Nil
  then have "pendingLines p = close # rest"
    by simp
  note sc = scan_pending_Cons [OF this]
  obtain scanned p1 where s: "scan p = (scanned, p1)"
    by (cases "scan p")
  with sc scan_frame(2) [of p]
  have p1: "scanned" "currentLine p1 = close" "pendingLines p1 = rest"
    "currTask p1 = currTask p"
    by simp_all
  have "codeBlockLoop p = (True, p1)"
    using s p1 Nil(3) by (subst codeBlockLoop.simps) (simp add: isFence_def)
  with p1 show ?case
    by simp
next
  case (Cons l block)
  then have pl: "pendingLines p = l # (block @ close # rest)" and nf: "\<not> isFence l"
    by simp_all
  obtain scanned p1 where s: "scan p = (scanned, p1)"
    by (cases "scan p")
  with scan_pending_Cons [OF pl] scan_frame(2) [of p]
  have p1: "scanned" "currentLine p1 = l" "pendingLines p1 = block @ close # rest"
    "currTask p1 = currTask p"
    by simp_all
  define p2 where "p2 = (if TrimSpace (currentLine p1) \<noteq> []
      then p1\<lparr>currTask := (currTask p1)
             \<lparr>Script := Script (currTask p1) @ currentLine p1 @ [newline]\<rparr>\<rparr>
      else p1)"
  have step: "codeBlockLoop p = codeBlockLoop p2"
    using s p1 nf by (subst codeBlockLoop.simps) (auto simp: p2_def isFence_def)
  have p2: "pendingLines p2 = block @ close # rest"
    using p1 by (simp add: p2_def pendingLines_currTask)
  have sc: "Script (currTask p2)
      = Script (currTask p) @ (if TrimSpace l \<noteq> [] then l @ [newline] else [])"
    using p1 by (simp add: p2_def)
  from Cons.IH [OF p2] Cons.prems(2,3) sc show ?case
    by (simp add: step)
qed

lemma codeBlockLoop_open:
  assumes "list_all (\<lambda>l. \<not> isFence l) (pendingLines p)"
  shows "\<not> fst (codeBlockLoop p)"
  using assms
proof (induction "pendingLines p" arbitrary: p)
  case Nil
  then have "scan p = (False, p)"
    by (simp add: scan_pending_Nil)
  then show ?case
    by (subst codeBlockLoop.simps) simp
next
  case (Cons l ls)
  from Cons(2) have pl: "pendingLines p = l # ls"
    by simp
  with Cons(3) have nf: "\<not> isFence l" and rest: "list_all (\<lambda>l. \<not> isFence l) ls"
    by simp_all
  obtain scanned p1 where s: "scan p = (scanned, p1)"
    by (cases "scan p")
  with scan_pending_Cons [OF pl]
  have p1: "scanned" "currentLine p1 = l" "pendingLines p1 = ls"
    by simp_all
  define p2 where "p2 = (if TrimSpace (currentLine p1) \<noteq> []
      then p1\<lparr>currTask := (currTask p1)
             \<lparr>Script := Script (currTask p1) @ currentLine p1 @ [newline]\<rparr>\<rparr>
      else p1)"
  have step: "codeBlockLoop p = codeBlockLoop p2"
    using s p1 nf by (subst codeBlockLoop.simps) (auto simp: p2_def isFence_def)
  have p2: "pendingLines p2 = ls"
    using p1 by (simp add: p2_def pendingLines_currTask)
  have "list_all (\<lambda>l. \<not> isFence l) (pendingLines p2)"
    using p2 rest by simp
  from Cons(1) [OF p2 [symmetric] this] show ?case
    by (simp add: step)
qed

lemma closedBlock_exists:
  assumes "\<not> list_all (\<lambda>l. \<not> isFence l) ls"
  shows "\<exists>block close rest. ls = block @ close # rest
           \<and> list_all (\<lambda>l. \<not> isFence l) block \<and> isFence close"
proof -
  let ?block = "takeWhile (\<lambda>l. \<not> isFence l) ls"
  let ?tail = "dropWhile (\<lambda>l. \<not> isFence l) ls"
  from assms have "?tail \<noteq> []"
    by (simp add: list_all_iff)
  then obtain close rest where t: "?tail = close # rest"
    by (cases ?tail) auto
  then have "isFence close"
    using hd_dropWhile [of "\<lambda>l. \<not> isFence l" ls] by auto
  moreover have "ls = ?block @ close # rest"
    using t takeWhile_dropWhile_id [of "\<lambda>l. \<not> isFence l" ls] by simp
  moreover have "list_all (\<lambda>l. \<not> isFence l) ?block"
    by (simp add: list_all_iff) (metis set_takeWhileD)
  ultimately show ?thesis
    by blast
qed














text \<open>\<open>Split\<close> on a separator: one piece more than separators, and no piece lost.\<close>

lemma Split_not_Nil: "Split s sep \<noteq> []"
  by (induction s) (auto split: list.splits)

lemma Split_length: "length (Split s sep) = Suc (Count s sep)"
  by (induction s) (auto simp: Count_def Split_not_Nil split: list.splits)

lemma Join_Cons_Cons: "Join ((c # x) # xs) sep = c # Join (x # xs) sep"
  by (cases xs) simp_all

lemma Join_Split: "Join (Split s sep) [sep] = s"
proof (induction s)
  case Nil
  show ?case
    by simp
next
  case (Cons c cs)
  obtain x xs where x: "Split cs sep = x # xs"
    using Split_not_Nil [of cs sep] by (cases "Split cs sep") auto
  with Cons show ?case
    by (simp add: Join_Cons_Cons)
qed

lemma Trim_Nil: "Trim [] cutset = []"
  by (simp add: Trim_def)

lemma eval_dir_empty_then_dir:
  "parseDocument ''# Tasks\<newline>## t\<newline>dir:\<newline>dir: x\<newline>req: a\<newline>\<newline>'' ''Tasks''
   = Some ([\<lparr>Name = ''t'', Description = [], Script = [], Env = [], Dir = ''x'',
             DependsOn = [''a''], Inputs = []\<rparr>], None)"
  by (simp add: eval_strings eval_parser)

lemma eval_dir_twice:
  "parseDocument ''# Tasks\<newline>## t\<newline>dir: y\<newline>dir: y\<newline>req: a\<newline>\<newline>'' ''Tasks''
   = Some ([], Some (ErrDirectoryTwice ''t''))"
  by (simp add: eval_strings eval_parser)


lemma eval_block_twice:
  "parseDocument ''# Tasks\<newline>## t\<newline>```\<newline>a\<newline>```\<newline>\<newline>```\<newline>echo\<newline>```\<newline>\<newline>'' ''Tasks''
   = Some ([], Some (ErrBlockExists ''t''))"
  by (simp add: eval_strings eval_parser)

text \<open>
  When the loop of a task's body comes to a state from which it returns an error,
  \<open>Parse\<close> returns that error, which names the task.
\<close>

lemma body_error_aborts:
  assumes "parseTaskBody p = Some ((ok, Some e), p')"
    and "findTaskHeading (q\<lparr>currTask := emptyTask\<rparr>) = ((h, False, None), p1)"
    and "parseTaskBody (p1\<lparr>currTask := (currTask p1)\<lparr>Name := h\<rparr>\<rparr>) = parseTaskBody p"
  shows "Parse q = Some ((tasks q, Some e), p')" and "Name (currTask p') = h"
proof -
  from assms(1,3)
  have b: "parseTaskBody (p1\<lparr>currTask := (currTask p1)\<lparr>Name := h\<rparr>\<rparr>) = Some ((ok, Some e), p')"
    by simp
  from parseTask_body_error [OF assms(2) b] show "Parse q = Some ((tasks q, Some e), p')"
    by simp
  from parseTaskBody_frame [OF b] show "Name (currTask p') = h"
    by simp
qed

lemma eval_marker_then_underline:
  "parseDocument ''# Tasks\<newline>## build\<newline>---\<newline>req: x\<newline>\<newline>'' ''Tasks''
   = Some ([\<lparr>Name = ''## build'', Description = [], Script = [], Env = [], Dir = [],
             DependsOn = [''x''], Inputs = []\<rparr>], None)"
  by (simp add: eval_strings eval_parser)

lemma eval_underline_then_underline:
  "parseDocument ''# Tasks\<newline>build\<newline>--------\<newline>---\<newline>req: x\<newline>\<newline>'' ''Tasks''
   = Some ([\<lparr>Name = ''build'', Description = [''---''], Script = [], Env = [], Dir = [],
             DependsOn = [''x''], Inputs = []\<rparr>], None)"
  by (simp add: eval_strings eval_parser)

lemma eval_underline_heading:
  "parseDocument ''# Tasks\<newline>build\<newline>--------\<newline>req: x\<newline>\<newline>'' ''Tasks''
   = Some ([\<lparr>Name = ''build'', Description = [], Script = [], Env = [], Dir = [],
             DependsOn = [''x''], Inputs = []\<rparr>], None)"
  by (simp add: eval_strings eval_parser)

text \<open>The two headings of claim C9, read by \<open>parseHeading\<close>.\<close>

lemma TrimSpace_dashes:
  "TrimSpace (CHR ''-'' # replicate k (CHR ''-'')) = CHR ''-'' # replicate k (CHR ''-'')"
  by (simp add: TrimSpace_def dropSpace_ascii dropSpace_rev_ascii asciiSpace_Char
      replicate_append_same)

lemma stringOnlyContains_replicate:
  "stringOnlyContains (c # replicate k c) d \<longleftrightarrow> c = d"
  by (auto simp: stringOnlyContains_def list_all_iff)

lemma splitLines_line:
  "newline \<notin> set l \<Longrightarrow> splitLines cur (l @ newline # ys) = (cur @ l) # splitLines [] ys"
  by (induction l arbitrary: cur) auto

lemma NewScanner_line:
  assumes "newline \<notin> set l" and "length l < maxScanTokenSize"
  shows "NewScanner (l @ newline # body) r
       = (NewScanner body r)\<lparr>pending := dropCR l # pending (NewScanner body r)\<rparr>"
  using assms by (simp add: NewScanner_def Let_def splitLines_line)

lemma marker_underline_parseHeading:
  assumes "\<not> stringOnlyContains (TrimSpace n) (CHR ''-'')"
    and "\<not> stringOnlyContains (TrimSpace n) (CHR ''='')"
  shows "parseHeading True (p\<lparr>currentLine := ''## build'', nextLine := n, reachedEnd := False\<rparr>)
       = parseHeading True
           (p\<lparr>currentLine := ''build'', nextLine := replicate (Suc k) (CHR ''-''),
              reachedEnd := False,
              scanner := (scanner p)\<lparr>pending := n # pending (scanner p), token := tk\<rparr>\<rparr>)"
proof -
  have t1: "TrimSpace ''## build'' = ''## build''" and t2: "TrimSpace ''build'' = ''build''"
    and f: "Fields ''## build'' = [''##'', ''build'']"
    by (simp_all add: eval_strings)
  have c: "Count ''##'' (CHR ''#'') = 2"
    by (simp add: Count_def)
  show ?thesis
    using assms
    by (cases "pending (scanner p)")
      (simp_all add: parseHeading_def parseAltHeading_def Let_def t1 t2 f c TrimSpace_dashes
        stringOnlyContains_replicate scan_def Scan_def)
qed

lemma marker_underline_findTaskHeading:
  assumes "\<not> stringOnlyContains (TrimSpace n) (CHR ''-'')"
    and "\<not> stringOnlyContains (TrimSpace n) (CHR ''='')"
  shows "findTaskHeading (p\<lparr>currentLine := ''## build'', nextLine := n, reachedEnd := False\<rparr>)
       = findTaskHeading
           (p\<lparr>currentLine := ''build'', nextLine := replicate (Suc k) (CHR ''-''),
              reachedEnd := False,
              scanner := (scanner p)\<lparr>pending := n # pending (scanner p), token := tk\<rparr>\<rparr>)"
proof -
  define pA where "pA = p\<lparr>currentLine := ''## build'', nextLine := n, reachedEnd := False\<rparr>"
  define pB where "pB = p\<lparr>currentLine := ''build'', nextLine := replicate (Suc k) (CHR ''-''),
              reachedEnd := False,
              scanner := (scanner p)\<lparr>pending := n # pending (scanner p), token := tk\<rparr>\<rparr>"
  have "parseHeading True pA = parseHeading True pB"
    unfolding pA_def pB_def by (rule marker_underline_parseHeading [OF assms])
  then have "findTaskHeading pA = findTaskHeading pB"
    by (simp add: findTaskHeading.simps [of pA] findTaskHeading.simps [of pB])
  then show ?thesis
    by (simp add: pA_def pB_def)
qed

lemma marker_underline_parseTask:
  assumes "\<not> stringOnlyContains (TrimSpace n) (CHR ''-'')"
    and "\<not> stringOnlyContains (TrimSpace n) (CHR ''='')"
  shows "parseTask (p\<lparr>currentLine := ''## build'', nextLine := n, reachedEnd := False\<rparr>)
       = parseTask
           (p\<lparr>currentLine := ''build'', nextLine := replicate (Suc k) (CHR ''-''),
              reachedEnd := False,
              scanner := (scanner p)\<lparr>pending := n # pending (scanner p), token := tk\<rparr>\<rparr>)"
    and "Parse (p\<lparr>currentLine := ''## build'', nextLine := n, reachedEnd := False\<rparr>)
       = Parse
           (p\<lparr>currentLine := ''build'', nextLine := replicate (Suc k) (CHR ''-''),
              reachedEnd := False,
              scanner := (scanner p)\<lparr>pending := n # pending (scanner p), token := tk\<rparr>\<rparr>)"
proof -
  define pA where "pA = p\<lparr>currentLine := ''## build'', nextLine := n, reachedEnd := False\<rparr>"
  define pB where "pB = p\<lparr>currentLine := ''build'', nextLine := replicate (Suc k) (CHR ''-''),
              reachedEnd := False,
              scanner := (scanner p)\<lparr>pending := n # pending (scanner p), token := tk\<rparr>\<rparr>"
  have eqA: "pA\<lparr>currTask := emptyTask\<rparr>
      = (p\<lparr>currTask := emptyTask\<rparr>)
          \<lparr>currentLine := ''## build'', nextLine := n, reachedEnd := False\<rparr>"
    by (cases p) (simp add: pA_def)
  have eqB: "pB\<lparr>currTask := emptyTask\<rparr>
      = (p\<lparr>currTask := emptyTask\<rparr>)
          \<lparr>currentLine := ''build'', nextLine := replicate (Suc k) (CHR ''-''),
           reachedEnd := False,
           scanner := (scanner (p\<lparr>currTask := emptyTask\<rparr>))
             \<lparr>pending := n # pending (scanner (p\<lparr>currTask := emptyTask\<rparr>)), token := tk\<rparr>\<rparr>"
    by (cases p) (simp add: pB_def)
  have "findTaskHeading (pA\<lparr>currTask := emptyTask\<rparr>) = findTaskHeading (pB\<lparr>currTask := emptyTask\<rparr>)"
    unfolding eqA eqB
    using marker_underline_findTaskHeading [OF assms, where p = "p\<lparr>currTask := emptyTask\<rparr>" and k = k and tk = tk]
    by simp
  then have t: "parseTask pA = parseTask pB"
    by (simp add: parseTask_def)
  then show "parseTask (p\<lparr>currentLine := ''## build'', nextLine := n, reachedEnd := False\<rparr>)
       = parseTask
           (p\<lparr>currentLine := ''build'', nextLine := replicate (Suc k) (CHR ''-''),
              reachedEnd := False,
              scanner := (scanner p)\<lparr>pending := n # pending (scanner p), token := tk\<rparr>\<rparr>)"
    by (simp only: pA_def pB_def)
  from t have "Parse pA = Parse pB"
    by (simp add: Parse.simps [of pA] Parse.simps [of pB])
  then show "Parse (p\<lparr>currentLine := ''## build'', nextLine := n, reachedEnd := False\<rparr>)
       = Parse
           (p\<lparr>currentLine := ''build'', nextLine := replicate (Suc k) (CHR ''-''),
              reachedEnd := False,
              scanner := (scanner p)\<lparr>pending := n # pending (scanner p), token := tk\<rparr>\<rparr>)"
    by (simp only: pA_def pB_def)
qed

text \<open>
  The two headings as \<open>parseHeading\<close> reads them without advancing, and the loop of
  a task body that has come to one of them.
\<close>

lemma marker_heading_peek:
  assumes "\<not> stringOnlyContains (TrimSpace (nextLine p)) (CHR ''-'')"
    and "\<not> stringOnlyContains (TrimSpace (nextLine p)) (CHR ''='')"
    and "currentLine p = ''## build''"
  shows "parseHeading False p = ((True, 2, ''build''), p)"
    and "rootHeadingLevel p \<ge> 1 \<Longrightarrow> parseTaskBody p = Some ((rootHeadingLevel p = 1, None), p)"
proof -
  have t1: "TrimSpace ''## build'' = ''## build''"
    and f: "Fields ''## build'' = [''##'', ''build'']"
    by (simp_all add: eval_strings)
  have c: "Count ''##'' (CHR ''#'') = 2"
    by (simp add: Count_def)
  show h: "parseHeading False p = ((True, 2, ''build''), p)"
    using assms by (simp add: parseHeading_def parseAltHeading_def Let_def t1 f c)
  assume r: "rootHeadingLevel p \<ge> 1"
  have a: "parseAttribute p = ((False, None), p)"
    using assms(3) by (simp add: parseAttribute_def)
  have b: "parseCodeBlock p = (None, p)"
    using assms(3) by (simp add: parseCodeBlock_def Let_def fence_def backtick_def)
  show "parseTaskBody p = Some ((rootHeadingLevel p = 1, None), p)"
    using r by (subst parseTaskBody.simps) (auto simp: a b h)
qed

lemma underline_heading_peek:
  assumes "currentLine p = ''build''"
    and "nextLine p = CHR ''-'' # replicate k (CHR ''-'')"
  shows "parseHeading False p = ((True, 2, ''build''), p)"
    and "rootHeadingLevel p \<ge> 1 \<Longrightarrow> parseTaskBody p = Some ((rootHeadingLevel p = 1, None), p)"
proof -
  have t2: "TrimSpace ''build'' = ''build''"
    by (simp add: eval_strings)
  show h: "parseHeading False p = ((True, 2, ''build''), p)"
    using assms
    by (simp add: parseHeading_def parseAltHeading_def Let_def t2 TrimSpace_dashes
        stringOnlyContains_replicate)
  assume r: "rootHeadingLevel p \<ge> 1"
  have a: "parseAttribute p = ((False, None), p)"
    using assms(1) by (simp add: parseAttribute_def)
  have b: "parseCodeBlock p = (None, p)"
    using assms(1) by (simp add: parseCodeBlock_def Let_def fence_def backtick_def)
  show "parseTaskBody p = Some ((rootHeadingLevel p = 1, None), p)"
    using r by (subst parseTaskBody.simps) (auto simp: a b h)
qed

text \<open>
  The same two headings as the last line of the input: no task body follows, and
  both parsers end the same way.
\<close>

lemma Cut_dashes: "Cut (replicate k (CHR ''-'')) (CHR '':'') = (replicate k (CHR ''-''), [], False)"
  by (induction k) simp_all

lemma marker_last_line:
  assumes "rootHeadingLevel p \<ge> 1"
  shows "map_option fst
           (Parse (p\<lparr>currentLine := ''## build'', nextLine := ''## build'', reachedEnd := True\<rparr>))
         = Some (tasks p, if rootHeadingLevel p = 1 then Some (ErrNoCommands ''build'') else None)"
proof -
  define pA where "pA = p\<lparr>currentLine := ''## build'', nextLine := ''## build'',
    reachedEnd := True, currTask := emptyTask\<rparr>"
  define pA1 where "pA1 = pA\<lparr>currTask := (currTask pA)\<lparr>Name := ''build''\<rparr>\<rparr>"
  have t1: "TrimSpace ''## build'' = ''## build''"
    and f: "Fields ''## build'' = [''##'', ''build'']"
    and tr: "Trim ''build'' trimValues = ''build''"
    and u: "\<not> stringOnlyContains ''## build'' (CHR ''-'')"
      "\<not> stringOnlyContains ''## build'' (CHR ''='')"
    by (simp_all add: eval_strings)
  have c: "Count ''##'' (CHR ''#'') = 2"
    by (simp add: Count_def)
  have hA: "parseHeading adv pA = ((True, 2, ''build''), pA)" for adv
    by (simp add: pA_def parseHeading_def parseAltHeading_def Let_def t1 f c u scan_def)
  have hA1: "parseHeading adv pA1 = ((True, 2, ''build''), pA1)" for adv
    by (simp add: pA1_def pA_def parseHeading_def parseAltHeading_def Let_def t1 f c u scan_def)
  have rA: "rootHeadingLevel pA = rootHeadingLevel p" "rootHeadingLevel pA1 = rootHeadingLevel p"
    "tasks pA = tasks p" "tasks pA1 = tasks p"
    by (simp_all add: pA_def pA1_def)
  have start: "(p\<lparr>currentLine := ''## build'', nextLine := ''## build'', reachedEnd := True\<rparr>)
      \<lparr>currTask := emptyTask\<rparr> = pA"
    by (simp add: pA_def)
  show ?thesis
  proof (cases "rootHeadingLevel p = 1")
    case True
    have fA: "findTaskHeading pA = ((''build'', False, None), pA)"
      using True by (simp add: findTaskHeading.simps [of pA] hA rA tr)
    have aA: "parseAttribute pA1 = ((False, None), pA1)"
      by (simp add: parseAttribute_def pA1_def pA_def)
    have cA: "parseCodeBlock pA1 = (None, pA1)"
      by (simp add: parseCodeBlock_def Let_def pA1_def pA_def fence_def backtick_def)
    have bA: "parseTaskBody pA1 = Some ((True, None), pA1)"
      using True by (simp add: parseTaskBody.simps [of pA1] aA cA hA1 rA)
    have "parseTask (p\<lparr>currentLine := ''## build'', nextLine := ''## build'', reachedEnd := True\<rparr>)
        = Some ((True, Some (ErrNoCommands ''build'')), pA1)"
      using bA by (simp add: parseTask_def start fA pA1_def [symmetric])
        (simp add: pA1_def pA_def emptyTask_def)
    then show ?thesis
      using True rA by (subst Parse.simps) simp
  next
    case False
    with assms have "rootHeadingLevel p \<ge> 2"
      by simp
    then have fA: "findTaskHeading pA = (([], True, None), pA)"
      by (simp add: findTaskHeading.simps [of pA] hA rA)
    have "parseTask (p\<lparr>currentLine := ''## build'', nextLine := ''## build'', reachedEnd := True\<rparr>)
        = Some ((False, None), pA)"
      by (simp add: parseTask_def start fA)
    then show ?thesis
      using False rA by (subst Parse.simps) simp
  qed
qed

lemma underline_last_line:
  assumes "rootHeadingLevel p \<ge> 1"
  shows "map_option fst
           (Parse (p\<lparr>currentLine := ''build'', nextLine := CHR ''-'' # replicate k (CHR ''-''),
                     reachedEnd := False, scanner := sc\<lparr>pending := []\<rparr>\<rparr>))
         = Some (tasks p, if rootHeadingLevel p = 1 then Some (ErrNoCommands ''build'') else None)"
proof -
  define dashes where "dashes = CHR ''-'' # replicate k (CHR ''-'')"
  define pB0 where "pB0 = p\<lparr>currentLine := ''build'', nextLine := dashes,
    reachedEnd := False, scanner := sc\<lparr>pending := []\<rparr>, currTask := emptyTask\<rparr>"
  define pB where "pB = p\<lparr>currentLine := dashes, nextLine := dashes,
    reachedEnd := True,
    scanner := sc\<lparr>pending := [], token := [], err := failure sc\<rparr>,
    currTask := emptyTask\<rparr>"
  define pB1 where "pB1 = pB\<lparr>currTask := (currTask pB)\<lparr>Name := ''build''\<rparr>\<rparr>"
  have t2: "TrimSpace ''build'' = ''build''"
    and tr: "Trim ''build'' trimValues = ''build''"
    by (simp_all add: eval_strings)
  have td: "TrimSpace dashes = dashes"
    and ud: "stringOnlyContains dashes (CHR ''-'')" "\<not> stringOnlyContains dashes (CHR ''='')"
    by (simp_all add: dashes_def TrimSpace_dashes stringOnlyContains_replicate)
  have h0: "parseHeading True pB0 = ((True, 2, ''build''), pB)"
    by (simp add: pB0_def pB_def parseHeading_def parseAltHeading_def Let_def t2 td ud
        scan_def Scan_def)
  have h1: "parseHeading False pB1 = ((True, 2, dashes), pB1)"
    by (simp add: pB1_def pB_def parseHeading_def parseAltHeading_def Let_def td ud)
  have rB: "rootHeadingLevel pB = rootHeadingLevel p" "rootHeadingLevel pB1 = rootHeadingLevel p"
    "tasks pB = tasks p" "tasks pB1 = tasks p"
    by (simp_all add: pB_def pB1_def)
  have start: "(p\<lparr>currentLine := ''build'', nextLine := CHR ''-'' # replicate k (CHR ''-''),
                     reachedEnd := False, scanner := sc\<lparr>pending := []\<rparr>\<rparr>)
      \<lparr>currTask := emptyTask\<rparr> = pB0"
    by (simp add: pB0_def dashes_def)
  show ?thesis
  proof (cases "rootHeadingLevel p = 1")
    case True
    have fB: "findTaskHeading pB0 = ((''build'', False, None), pB)"
      using True by (simp add: findTaskHeading.simps [of pB0] h0 rB tr)
    have aB: "parseAttribute pB1 = ((False, None), pB1)"
      using Cut_dashes [of "Suc k"]
      by (simp add: parseAttribute_def pB1_def pB_def dashes_def)
    have cB: "parseCodeBlock pB1 = (None, pB1)"
      by (simp add: parseCodeBlock_def Let_def pB1_def pB_def dashes_def fence_def backtick_def)
    have bB: "parseTaskBody pB1 = Some ((True, None), pB1)"
      using True by (simp add: parseTaskBody.simps [of pB1] aB cB h1 rB)
    have "parseTask (p\<lparr>currentLine := ''build'', nextLine := CHR ''-'' # replicate k (CHR ''-''),
                     reachedEnd := False, scanner := sc\<lparr>pending := []\<rparr>\<rparr>)
        = Some ((True, Some (ErrNoCommands ''build'')), pB1)"
      using bB by (simp add: parseTask_def start fB pB1_def [symmetric])
        (simp add: pB1_def pB_def emptyTask_def)
    then show ?thesis
      using True rB by (subst Parse.simps) simp
  next
    case False
    with assms have "rootHeadingLevel p \<ge> 2"
      by simp
    then have fB: "findTaskHeading pB0 = (([], True, None), pB)"
      by (simp add: findTaskHeading.simps [of pB0] h0 rB)
    have "parseTask (p\<lparr>currentLine := ''build'', nextLine := CHR ''-'' # replicate k (CHR ''-''),
                     reachedEnd := False, scanner := sc\<lparr>pending := []\<rparr>\<rparr>)
        = Some ((False, None), pB)"
      by (simp add: parseTask_def start fB)
    then show ?thesis
      using False rB by (subst Parse.simps) simp
  qed
qed

text \<open>
  The two headings as the first line after the section heading \<open># Tasks\<close>, with any
  text after them.
\<close>

lemma NewScanner_record:
  "NewScanner doc r
   = \<lparr>pending = pending (NewScanner doc r), failure = failure (NewScanner doc r),
      token = [], err = None\<rparr>"
  by (simp add: NewScanner_def Let_def)

lemma marker_underline_document:
  assumes "k < 65535"
    and "\<forall>n rest. pending (NewScanner body None) = n # rest \<longrightarrow>
           \<not> stringOnlyContains (TrimSpace n) (CHR ''-'')
           \<and> \<not> stringOnlyContains (TrimSpace n) (CHR ''='')"
  shows "parseDocument (''# Tasks\<newline>## build\<newline>'' @ body) ''Tasks''
       = parseDocument (''# Tasks\<newline>build\<newline>'' @ replicate (Suc k) (CHR ''-'') @ newline # body)
           ''Tasks''"
proof -
  define ps where "ps = pending (NewScanner body None)"
  define fl where "fl = failure (NewScanner body None)"
  define dashes where "dashes = CHR ''-'' # replicate k (CHR ''-'')"
  have S: "NewScanner body None = \<lparr>pending = ps, failure = fl, token = [], err = None\<rparr>"
    unfolding ps_def fl_def by (rule NewScanner_record)
  have d: "newline \<notin> set dashes" "length dashes < maxScanTokenSize" "dropCR dashes = dashes"
    using assms(1) by (simp_all add: dashes_def newline_def maxScanTokenSize_def dropCR_def)
  have "NewScanner (dashes @ newline # body) None
      = \<lparr>pending = dashes # ps, failure = fl, token = [], err = None\<rparr>"
    using NewScanner_line [OF d(1,2), of body None] by (simp add: S d)
  then have "NewScanner (''build'' @ newline # dashes @ newline # body) None
      = \<lparr>pending = ''build'' # dashes # ps, failure = fl, token = [], err = None\<rparr>"
    using NewScanner_line [of "''build''" "dashes @ newline # body" None]
    by (simp add: newline_def maxScanTokenSize_def dropCR_def)
  then have "NewScanner (''# Tasks'' @ newline # ''build'' @ newline # dashes @ newline # body) None
      = \<lparr>pending = ''# Tasks'' # ''build'' # dashes # ps, failure = fl, token = [], err = None\<rparr>"
    using NewScanner_line [of "''# Tasks''" "''build'' @ newline # dashes @ newline # body" None]
    by (simp add: newline_def maxScanTokenSize_def dropCR_def)
  then have sB: "NewScanner (''# Tasks\<newline>build\<newline>'' @ replicate (Suc k) (CHR ''-'') @ newline # body) None
      = \<lparr>pending = ''# Tasks'' # ''build'' # dashes # ps, failure = fl, token = [], err = None\<rparr>"
    by (simp add: newline_def dashes_def)
  have "NewScanner (''## build'' @ newline # body) None
      = \<lparr>pending = ''## build'' # ps, failure = fl, token = [], err = None\<rparr>"
    using NewScanner_line [of "''## build''" body None]
    by (simp add: S newline_def maxScanTokenSize_def dropCR_def)
  then have "NewScanner (''# Tasks'' @ newline # ''## build'' @ newline # body) None
      = \<lparr>pending = ''# Tasks'' # ''## build'' # ps, failure = fl, token = [], err = None\<rparr>"
    using NewScanner_line [of "''# Tasks''" "''## build'' @ newline # body" None]
    by (simp add: newline_def maxScanTokenSize_def dropCR_def)
  then have sA: "NewScanner (''# Tasks\<newline>## build\<newline>'' @ body) None
      = \<lparr>pending = ''# Tasks'' # ''## build'' # ps, failure = fl, token = [], err = None\<rparr>"
    by (simp add: newline_def)
  have td: "TrimSpace dashes = dashes"
    and ud: "stringOnlyContains dashes (CHR ''-'')" "\<not> stringOnlyContains dashes (CHR ''='')"
    by (simp_all add: dashes_def TrimSpace_dashes stringOnlyContains_replicate)
  show ?thesis
  proof (cases ps)
    case Nil
    let ?pA = "\<lparr>scanner = \<lparr>pending = [], failure = fl, token = [], err = fl\<rparr>,
      tasks = [], currTask = emptyTask, rootHeadingLevel = 1,
      nextLine = ''## build'', currentLine = ''## build'', reachedEnd = True\<rparr>"
    let ?pB = "\<lparr>scanner = \<lparr>pending = [], failure = fl, token = dashes, err = None\<rparr>,
      tasks = [], currTask = emptyTask, rootHeadingLevel = 1,
      nextLine = dashes, currentLine = ''build'', reachedEnd = False\<rparr>"
    have nA: "NewParser (NewReader (''# Tasks\<newline>## build\<newline>'' @ body)) ''Tasks'' = (?pA, None)"
      unfolding NewParser_def NewReader_def fst_conv snd_conv sA
      by (simp add: Nil eval_strings scan_def Scan_def parseAltHeading_def parseHeading_def
          findRoot.simps Let_def)
    have nB: "NewParser (NewReader (''# Tasks\<newline>build\<newline>'' @ replicate (Suc k) (CHR ''-'')
          @ newline # body)) ''Tasks'' = (?pB, None)"
      unfolding NewParser_def NewReader_def fst_conv snd_conv sB
      by (simp add: Nil td ud eval_strings scan_def Scan_def parseAltHeading_def parseHeading_def
          findRoot.simps Let_def)
    have "map_option fst (Parse ?pA) = Some ([], Some (ErrNoCommands ''build''))"
      using marker_last_line [of ?pA] by simp
    moreover have "map_option fst (Parse ?pB) = Some ([], Some (ErrNoCommands ''build''))"
      using underline_last_line [where p = ?pB and k = k and sc = "scanner ?pB"] by (simp add: dashes_def)
    ultimately show ?thesis
      by (simp only: parseDocument_def nA nB prod.case option.case)
  next
    case (Cons n rest)
    with assms(2) have n: "\<not> stringOnlyContains (TrimSpace n) (CHR ''-'')"
      "\<not> stringOnlyContains (TrimSpace n) (CHR ''='')"
      by (simp_all add: ps_def)
    let ?pA = "\<lparr>scanner = \<lparr>pending = rest, failure = fl, token = n, err = None\<rparr>,
      tasks = [], currTask = emptyTask, rootHeadingLevel = 1,
      nextLine = n, currentLine = ''## build'', reachedEnd = False\<rparr>"
    let ?pB = "\<lparr>scanner = \<lparr>pending = n # rest, failure = fl, token = dashes, err = None\<rparr>,
      tasks = [], currTask = emptyTask, rootHeadingLevel = 1,
      nextLine = dashes, currentLine = ''build'', reachedEnd = False\<rparr>"
    have nA: "NewParser (NewReader (''# Tasks\<newline>## build\<newline>'' @ body)) ''Tasks'' = (?pA, None)"
      unfolding NewParser_def NewReader_def fst_conv snd_conv sA
      using n
      by (simp add: Cons eval_strings scan_def Scan_def parseAltHeading_def parseHeading_def
          findRoot.simps Let_def)
    have nB: "NewParser (NewReader (''# Tasks\<newline>build\<newline>'' @ replicate (Suc k) (CHR ''-'')
          @ newline # body)) ''Tasks'' = (?pB, None)"
      unfolding NewParser_def NewReader_def fst_conv snd_conv sB
      by (simp add: Cons td ud eval_strings scan_def Scan_def parseAltHeading_def parseHeading_def
          findRoot.simps Let_def)
    have "Parse ?pA = Parse ?pB"
      using marker_underline_parseTask(2) [OF n, where p = ?pA and k = k and tk = dashes]
      by (simp add: dashes_def)
    then show ?thesis
      by (simp only: parseDocument_def nA nB prod.case option.case)
  qed
qed

lemma eval_deep_then_marker:
  "parseDocument ''# Tasks\<newline>### deep\<newline>## build\<newline>'' ''Tasks''
   = Some ([], Some (ErrReadFile None))"
  by (simp add: eval_strings eval_parser)

lemma eval_deep_then_underline:
  "parseDocument ''# Tasks\<newline>### deep\<newline>build\<newline>-----\<newline>'' ''Tasks''
   = Some ([], Some (ErrNoCommands ''-----''))"
  by (simp add: eval_strings eval_parser)

section \<open>The body loop on a last line that is an attribute\<close>

text \<open>
  \<open>parseAttribute\<close> ignores what \<open>scan\<close> returns. On the last line of the input
  \<open>scan\<close> leaves the cursor where it is, so a list attribute there is recognised
  again and again: the loop of \<open>parseTaskBody\<close> does not return.
\<close>

lemma parseTaskBody_last_line_attribute:
  assumes "reachedEnd p"
    and "Cut (currentLine p) (CHR '':'') = (a, rest, True)"
    and "attMap (ToLower (Trim a trimValues)) = Some ty"
    and "ty \<noteq> AttributeTypeDir"
  shows "parseTaskBody p = None"
proof (rule ccontr)
  assume "parseTaskBody p \<noteq> None"
  then obtain r where r: "parseTaskBody p = Some r"
    by auto
  have "\<not> (reachedEnd p \<and> Cut (currentLine p) (CHR '':'') = (a, rest, True))"
  proof (rule parseTaskBody.raw_induct [where P = "\<lambda>p r.
      \<not> (reachedEnd p \<and> Cut (currentLine p) (CHR '':'') = (a, rest, True))", OF _ r], goal_cases)
    case (1 body p r)
    show ?case
    proof
      assume e: "reachedEnd p \<and> Cut (currentLine p) (CHR '':'') = (a, rest, True)"
      obtain p1 where a: "parseAttribute p = ((True, None), p1)"
        and p1: "reachedEnd p1" "currentLine p1 = currentLine p"
        using e assms(3,4)
        by (cases ty) (auto simp: parseAttribute_def Let_def scan_def)
      from 1(2) a have "body p1 = Some r"
        by simp
      from 1(1) [OF this] e p1 show False
        by simp
    qed
  qed
  with assms show False
    by simp
qed

lemma eval_last_line_attribute:
  "parseDocument ''# Tasks\<newline>## build\<newline>req: other\<newline>'' ''Tasks'' = None"
proof -
  let ?q = "\<lparr>scanner = \<lparr>pending = [], failure = None, token = ''req: other'', err = None\<rparr>,
      tasks = [], currTask = emptyTask,
      rootHeadingLevel = 1, nextLine = ''req: other'', currentLine = ''## build'',
      reachedEnd = False\<rparr>"
  let ?p1 = "\<lparr>scanner = \<lparr>pending = [], failure = None, token = [], err = None\<rparr>,
      tasks = [], currTask = emptyTask,
      rootHeadingLevel = 1, nextLine = ''req: other'', currentLine = ''req: other'',
      reachedEnd = True\<rparr>"
  have n: "NewParser (NewReader ''# Tasks\<newline>## build\<newline>req: other\<newline>'') ''Tasks''
      = (?q, None)"
    by (simp add: eval_strings scan_def Scan_def parseAltHeading_def parseHeading_def
        findRoot.simps NewParser_def NewReader_def NewScanner_def dropCR_def
        maxScanTokenSize_def Let_def)
  have f: "findTaskHeading (?q\<lparr>currTask := emptyTask\<rparr>) = ((''build'', False, None), ?p1)"
    by (simp add: eval_strings scan_def Scan_def parseAltHeading_def parseHeading_def
        findTaskHeading.simps Let_def)
  have m: "attMap (ToLower (Trim ''req'' trimValues)) = Some AttributeTypeReq"
    by (simp add: eval_strings)
  have "parseTaskBody (?p1\<lparr>currTask := (currTask ?p1)\<lparr>Name := ''build''\<rparr>\<rparr>) = None"
    by (rule parseTaskBody_last_line_attribute [of _ "''req''" "'' other''" AttributeTypeReq])
      (simp_all add: m)
  with f have "parseTask ?q = None"
    by (simp add: parseTask_def)
  then have "Parse ?q = None"
    by (subst Parse.simps) simp
  with n show ?thesis
    by (simp add: parseDocument_def)
qed

section \<open>The claims\<close>

text \<open>
  Claim C1: parsing the document
  \<open>"# Tasks\n## build\nreq: test\n\n```\necho hi\n```\n"\<close> for the section \<open>Tasks\<close>
  succeeds and yields exactly one task, with name \<open>build\<close>, required task \<open>test\<close>,
  script \<open>"echo hi\n"\<close> and an empty description.

  The code returns that task with the description \<open>[""]\<close>, a list of one empty
  string. The closing fence is the last line of the input: the call of \<open>scan\<close> that
  \<open>parseCodeBlock\<close> makes to pass it does nothing at the end of the input, so
  \<open>parseTaskBody\<close> reads the fence again, as a line of description, and appends it
  trimmed of its backticks. With one more line after the fence the description is
  empty, as the claim has it.
\<close>

theorem build_document_description:
  "parseDocument ''# Tasks\<newline>## build\<newline>req: test\<newline>\<newline>```\<newline>echo hi\<newline>```\<newline>'' ''Tasks''
     = Some ([\<lparr>Name = ''build'', Description = [[]], Script = ''echo hi\<newline>'', Env = [],
               Dir = [], DependsOn = [''test''], Inputs = []\<rparr>], None)
   \<and> parseDocument ''# Tasks\<newline>## build\<newline>req: test\<newline>\<newline>```\<newline>echo hi\<newline>```\<newline>\<newline>'' ''Tasks''
     = Some ([\<lparr>Name = ''build'', Description = [], Script = ''echo hi\<newline>'', Env = [],
               Dir = [], DependsOn = [''test''], Inputs = []\<rparr>], None)"
  by (rule conjI [OF eval_build eval_build_then_blank])




text \<open>
  Claim C3: every task of a returned list has a non-empty name and a non-empty
  script or a non-empty list of required tasks, and a task that violates this when
  it is finalized is a fatal error, not a task dropped in silence.

  Nothing in the code tests the name. The heading text \<open>**\<close> is trimmed to the
  empty string, and the task is returned with an empty name.
\<close>

theorem empty_name_counterexample:
  "parseDocument ''# Tasks\<newline>## **\<newline>req: x\<newline>\<newline>'' ''Tasks''
   = Some ([\<lparr>Name = [], Description = [], Script = [], Env = [], Dir = [],
             DependsOn = [''x''], Inputs = []\<rparr>], None)"
  by (rule eval_starred_heading)

text \<open>
  Claim C3, amended: every task of a list returned for a document has a non-empty
  script or a non-empty list of required tasks (its name may be empty); and when the
  body of a task ends without an error and the task has neither, \<open>parseTask\<close> and
  \<open>Parse\<close> return the error "task has no commands or required tasks" with the
  name of the task, and the task list as it was.
\<close>

theorem returned_tasks_have_commands:
  "(parseDocument doc heading = Some (ts, e)
      \<longrightarrow> (\<forall>t \<in> set ts. Script t \<noteq> [] \<or> DependsOn t \<noteq> []))
   \<and> (findTaskHeading (p\<lparr>currTask := emptyTask\<rparr>) = ((h, False, None), p1)
        \<and> parseTaskBody (p1\<lparr>currTask := (currTask p1)\<lparr>Name := h\<rparr>\<rparr>) = Some ((ok, None), p2)
        \<and> Script (currTask p2) = [] \<and> DependsOn (currTask p2) = []
      \<longrightarrow> parseTask p = Some ((ok, Some (ErrNoCommands h)), p2)
          \<and> Parse p = Some ((tasks p, Some (ErrNoCommands h)), p2))"
proof (intro conjI impI)
  assume "parseDocument doc heading = Some (ts, e)"
  from parseDocument_tasks [OF this] show "\<forall>t \<in> set ts. Script t \<noteq> [] \<or> DependsOn t \<noteq> []"
    by (simp add: list_all_iff hasCommands_iff)
next
  assume a: "findTaskHeading (p\<lparr>currTask := emptyTask\<rparr>) = ((h, False, None), p1)
        \<and> parseTaskBody (p1\<lparr>currTask := (currTask p1)\<lparr>Name := h\<rparr>\<rparr>) = Some ((ok, None), p2)
        \<and> Script (currTask p2) = [] \<and> DependsOn (currTask p2) = []"
  then show "parseTask p = Some ((ok, Some (ErrNoCommands h)), p2)"
    using parseTask_no_commands [of p h p1 ok p2] by blast
  from a show "Parse p = Some ((tasks p, Some (ErrNoCommands h)), p2)"
    using parseTask_no_commands [of p h p1 ok p2] by blast
qed

theorem returned_tasks_have_commands_witness:
  "parseDocument ''# Tasks\<newline>## build\<newline>req: x\<newline>\<newline>'' ''Tasks''
     = Some ([\<lparr>Name = ''build'', Description = [], Script = [], Env = [], Dir = [],
               DependsOn = [''x''], Inputs = []\<rparr>], None)
   \<and> DependsOn \<lparr>Name = ''build'', Description = [], Script = [], Env = [], Dir = [],
               DependsOn = [''x''], Inputs = []\<rparr> \<noteq> []
   \<and> Parse (parserAt ''## b'' ''text'' [])
     = Some (([], Some (ErrNoCommands ''b'')),
         \<lparr>scanner = \<lparr>pending = [], failure = None, token = [], err = None\<rparr>,
          tasks = [],
          currTask = \<lparr>Name = ''b'', Description = [''text''], Script = [], Env = [],
                      Dir = [], DependsOn = [], Inputs = []\<rparr>,
          rootHeadingLevel = 1, nextLine = ''text'', currentLine = ''text'',
          reachedEnd = True\<rparr>)"
proof -
  let ?p1 = "\<lparr>scanner = \<lparr>pending = [], failure = None, token = [], err = None\<rparr>,
          tasks = [], currTask = emptyTask,
          rootHeadingLevel = 1, nextLine = ''text'', currentLine = ''text'',
          reachedEnd = True\<rparr>"
  let ?p2 = "\<lparr>scanner = \<lparr>pending = [], failure = None, token = [], err = None\<rparr>,
          tasks = [],
          currTask = \<lparr>Name = ''b'', Description = [''text''], Script = [], Env = [],
                      Dir = [], DependsOn = [], Inputs = []\<rparr>,
          rootHeadingLevel = 1, nextLine = ''text'', currentLine = ''text'',
          reachedEnd = True\<rparr>"
  have f: "findTaskHeading ((parserAt ''## b'' ''text'' [])\<lparr>currTask := emptyTask\<rparr>)
             = ((''b'', False, None), ?p1)"
    by (simp add: parserAt_def eval_strings eval_parser)
  have b: "parseTaskBody (?p1\<lparr>currTask := (currTask ?p1)\<lparr>Name := ''b''\<rparr>\<rparr>)
             = Some ((False, None), ?p2)"
    by (simp add: eval_strings eval_parser)
  have t: "tasks (parserAt ''## b'' ''text'' []) = []"
    by (simp add: parserAt_def)
  note inst = returned_tasks_have_commands [where doc = "''# Tasks\<newline>## build\<newline>req: x\<newline>\<newline>''"
      and heading = "''Tasks''" and p = "parserAt ''## b'' ''text'' []" and h = "''b''"
      and ?p1.0 = ?p1 and ok = False and ?p2.0 = ?p2]
  from inst f b t have "Parse (parserAt ''## b'' ''text'' [])
     = Some (([], Some (ErrNoCommands ''b'')), ?p2)"
    by simp
  with eval_req_only show ?thesis
    by simp
qed

text \<open>
  Claim C4: a read-failure error is returned only when the input source reported a
  read error; for an input that simply ends, the parse never returns the wrapped
  read-failure error.

  \<open>findTaskHeading\<close> returns "failed to read file", wrapping the scanner's error,
  whenever \<open>scan\<close> returns false, which it does at the end of the input, error or
  not. The reader below ends without an error, the scanner's \<open>Err()\<close> is \<open>nil\<close>, and
  the section holds no task heading: the parse returns the read-failure error
  wrapping \<open>nil\<close>.
\<close>

theorem read_failure_without_read_error:
  "parseDocument ''# Tasks\<newline>foo\<newline>'' ''Tasks'' = Some ([], Some (ErrReadFile None))"
  by (rule eval_no_task)

text \<open>
  Claim C5: for every task body with two recognised \<open>dir:\<close> or \<open>directory:\<close>
  lines, the second one, even with the value of the first, aborts the whole parse
  with the duplicate-directory error naming the task.

  The code takes an empty \<open>Dir\<close> for "not yet set". After \<open>dir:\<close> with an empty
  value the second line is accepted, and sets the directory.
\<close>

theorem second_dir_accepted_counterexample:
  "parseDocument ''# Tasks\<newline>## t\<newline>dir:\<newline>dir: x\<newline>req: a\<newline>\<newline>'' ''Tasks''
   = Some ([\<lparr>Name = ''t'', Description = [], Script = [], Env = [], Dir = ''x'',
             DependsOn = [''a''], Inputs = []\<rparr>], None)"
  by (rule eval_dir_empty_then_dir)

text \<open>
  Claim C5, amended: a recognised \<open>dir:\<close> or \<open>directory:\<close> line read while the
  task's \<open>Dir\<close> is not empty, that is after a line that gave it a non-empty value,
  even the same value, makes \<open>parseAttribute\<close> and the body of the task return the
  error "directory appears more than once" with the name of the task, and \<open>Parse\<close>
  return that error for the task whose body has come to the line. Read while
  \<open>Dir\<close> is empty, the line is accepted and \<open>Dir\<close> becomes its trimmed value.
\<close>

theorem second_dir_rejected:
  assumes "Cut (currentLine p) (CHR '':'') = (a, rest, True)"
    and "attMap (ToLower (Trim a trimValues)) = Some AttributeTypeDir"
  shows "(Dir (currTask p) \<noteq> [] \<longrightarrow>
           parseAttribute p = ((False, Some (ErrDirectoryTwice (Name (currTask p)))), p)
           \<and> parseTaskBody p = Some ((False, Some (ErrDirectoryTwice (Name (currTask p)))), p)
           \<and> (findTaskHeading (q\<lparr>currTask := emptyTask\<rparr>) = ((h, False, None), p1)
                \<and> parseTaskBody (p1\<lparr>currTask := (currTask p1)\<lparr>Name := h\<rparr>\<rparr>) = parseTaskBody p
               \<longrightarrow> Parse q = Some ((tasks q, Some (ErrDirectoryTwice h)), p)))
    \<and> (Dir (currTask p) = [] \<longrightarrow>
           fst (parseAttribute p) = (True, None)
           \<and> Dir (currTask (snd (parseAttribute p))) = Trim rest trimValues)"
proof (intro conjI impI)
  assume d: "Dir (currTask p) \<noteq> []"
  with assms show a: "parseAttribute p = ((False, Some (ErrDirectoryTwice (Name (currTask p)))), p)"
    by (simp add: parseAttribute_def)
  then show b: "parseTaskBody p = Some ((False, Some (ErrDirectoryTwice (Name (currTask p)))), p)"
    by (subst parseTaskBody.simps) simp
  assume "findTaskHeading (q\<lparr>currTask := emptyTask\<rparr>) = ((h, False, None), p1)
      \<and> parseTaskBody (p1\<lparr>currTask := (currTask p1)\<lparr>Name := h\<rparr>\<rparr>) = parseTaskBody p"
  with body_error_aborts [OF b, of q h p1]
  show "Parse q = Some ((tasks q, Some (ErrDirectoryTwice h)), p)"
    by simp
next
  assume "Dir (currTask p) = []"
  with assms show "fst (parseAttribute p) = (True, None)"
    by (simp add: parseAttribute_def)
next
  assume "Dir (currTask p) = []"
  with assms show "Dir (currTask (snd (parseAttribute p))) = Trim rest trimValues"
    by (simp add: parseAttribute_def scan_frame)
qed

theorem second_dir_rejected_witness:
  "Parse (parserAt ''## t'' ''dir: y'' [''dir: y'', ''req: a'', ''''])
     = Some (([], Some (ErrDirectoryTwice ''t'')),
          \<lparr>scanner = \<lparr>pending = [''''], failure = None, token = ''req: a'', err = None\<rparr>,
           tasks = [],
           currTask = \<lparr>Name = ''t'', Description = [], Script = [], Env = [], Dir = ''y'',
                       DependsOn = [], Inputs = []\<rparr>,
           rootHeadingLevel = 1, nextLine = ''req: a'', currentLine = ''dir: y'',
           reachedEnd = False\<rparr>)
   \<and> Dir (currTask (snd (parseAttribute (parserAt ''dir: y'' ''dir: y'' [''req: a'', ''''])))) = ''y''"
proof -
  let ?q = "parserAt ''## t'' ''dir: y'' [''dir: y'', ''req: a'', '''']"
  let ?p1 = "\<lparr>scanner = \<lparr>pending = [''req: a'', ''''], failure = None, token = ''dir: y'',
                          err = None\<rparr>,
           tasks = [], currTask = emptyTask,
           rootHeadingLevel = 1, nextLine = ''dir: y'', currentLine = ''dir: y'',
           reachedEnd = False\<rparr>"
  let ?p = "\<lparr>scanner = \<lparr>pending = [''''], failure = None, token = ''req: a'', err = None\<rparr>,
           tasks = [],
           currTask = \<lparr>Name = ''t'', Description = [], Script = [], Env = [], Dir = ''y'',
                       DependsOn = [], Inputs = []\<rparr>,
           rootHeadingLevel = 1, nextLine = ''req: a'', currentLine = ''dir: y'',
           reachedEnd = False\<rparr>"
  let ?first = "parserAt ''dir: y'' ''dir: y'' [''req: a'', '''']"
  have c: "Cut (currentLine ?p) (CHR '':'') = (''dir'', '' y'', True)"
    by simp
  have c1: "Cut (currentLine ?first) (CHR '':'') = (''dir'', '' y'', True)"
    by (simp add: parserAt_def)
  have m: "attMap (ToLower (Trim ''dir'' trimValues)) = Some AttributeTypeDir"
    by (simp add: eval_strings)
  have d: "Dir (currTask ?p) \<noteq> []"
    by simp
  have d1: "Dir (currTask ?first) = []"
    by (simp add: parserAt_def emptyTask_def)
  have t: "Trim '' y'' trimValues = ''y''"
    by (simp add: eval_strings)
  have f: "findTaskHeading (?q\<lparr>currTask := emptyTask\<rparr>) = ((''t'', False, None), ?p1)"
    by (simp add: parserAt_def eval_strings eval_parser)
  have b: "parseTaskBody (?p1\<lparr>currTask := (currTask ?p1)\<lparr>Name := ''t''\<rparr>\<rparr>) = parseTaskBody ?p"
    by (simp add: eval_strings eval_parser)
  have q: "tasks ?q = []"
    by (simp add: parserAt_def)
  from second_dir_rejected [OF c m, of ?q "''t''" ?p1] d f b q
  have r: "Parse ?q = Some (([], Some (ErrDirectoryTwice ''t'')), ?p)"
    by simp
  from second_dir_rejected [OF c1 m, of ?q "''t''" ?p1] d1 t
  have "Dir (currTask (snd (parseAttribute ?first))) = ''y''"
    by simp
  with r show ?thesis
    by simp
qed




text \<open>
  Claim C7: during the search for a task, a heading deeper than one level below the
  section, or a line that is no heading, is skipped by advancing exactly one step, so
  that a task heading on the very next line is still recognised.

  For a line that is no heading the code does so (second equation). A deeper heading
  is consumed by \<open>parseHeading\<close>, which advances past it, and \<open>findTaskHeading\<close>
  then calls \<open>scan\<close> once more: the line after the heading is skipped unread. In the
  first document that line is the task heading \<open>## build\<close>; no task is found and the
  search runs to the end of the input.
\<close>

theorem heading_after_deeper_heading_skipped:
  "parseDocument ''# Tasks\<newline>### deep\<newline>## build\<newline>req: x\<newline>\<newline>'' ''Tasks''
     = Some ([], Some (ErrReadFile None))
   \<and> parseDocument ''# Tasks\<newline>deep\<newline>## build\<newline>req: x\<newline>\<newline>'' ''Tasks''
     = Some ([\<lparr>Name = ''build'', Description = [], Script = [], Env = [], Dir = [],
               DependsOn = [''x''], Inputs = []\<rparr>], None)"
  by (rule conjI [OF eval_deep_heading eval_plain_line])

text \<open>
  Claim C8: for every fenced block captured into a task's script, the blank lines
  of the block are absent from the script and every other line is in it as it is in
  the input, ended by a newline, in the order of the input; a block of five lines of
  which two are blank gives a script of three lines.

  At an opening fence, with no script yet, \<open>parseCodeBlock\<close> succeeds exactly when a
  fence line is still to come; the block is then the lines before the first such
  line, and the script is its non-blank lines, each followed by a newline.
\<close>

theorem fenced_block_script:
  assumes "isFence (currentLine p)" and "Script (currTask p) = []"
  shows "(fst (parseCodeBlock p) = None \<longleftrightarrow> (\<exists>block close rest. closedBlock p block close rest))
    \<and> (closedBlock p block close rest \<longrightarrow>
         fst (parseCodeBlock p) = None
         \<and> Script (currTask (snd (parseCodeBlock p)))
             = concat (map (\<lambda>l. l @ [newline]) (filter (\<lambda>l. TrimSpace l \<noteq> []) block)))"
proof -
  have closed: "fst (parseCodeBlock p) = None
         \<and> Script (currTask (snd (parseCodeBlock p)))
             = concat (map (\<lambda>l. l @ [newline]) (filter (\<lambda>l. TrimSpace l \<noteq> []) block))"
    if "closedBlock p block close rest" for block close rest
  proof -
    from that have "pendingLines p = block @ close # rest"
      "list_all (\<lambda>l. \<not> isFence l) block" "isFence close"
      by (simp_all add: closedBlock_def)
    from codeBlockLoop_closed [OF this] assms show ?thesis
      by (simp add: parseCodeBlock_def isFence_def Let_def scan_frame)
  qed
  have "\<exists>block close rest. closedBlock p block close rest" if "fst (parseCodeBlock p) = None"
  proof (rule ccontr)
    assume no: "\<not> (\<exists>block close rest. closedBlock p block close rest)"
    have "list_all (\<lambda>l. \<not> isFence l) (pendingLines p)"
    proof (rule ccontr)
      assume "\<not> list_all (\<lambda>l. \<not> isFence l) (pendingLines p)"
      from closedBlock_exists [OF this] no show False
        by (auto simp: closedBlock_def)
    qed
    from codeBlockLoop_open [OF this] assms that show False
      by (simp add: parseCodeBlock_def isFence_def Let_def)
  qed
  with closed show ?thesis
    by blast
qed

theorem fenced_block_script_witness:
  "isFence (currentLine (parserAt ''```'' ''a'' ['''', ''b'', ''  '', ''c'', ''```'', ''end'']))
   \<and> Script (currTask (parserAt ''```'' ''a'' ['''', ''b'', ''  '', ''c'', ''```'', ''end''])) = []
   \<and> closedBlock (parserAt ''```'' ''a'' ['''', ''b'', ''  '', ''c'', ''```'', ''end''])
        [''a'', '''', ''b'', ''  '', ''c''] ''```'' [''end'']
   \<and> fst (parseCodeBlock (parserAt ''```'' ''a'' ['''', ''b'', ''  '', ''c'', ''```'', ''end''])) = None
   \<and> Script (currTask (snd (parseCodeBlock
        (parserAt ''```'' ''a'' ['''', ''b'', ''  '', ''c'', ''```'', ''end'']))))
      = ''a\<newline>b\<newline>c\<newline>''"
proof -
  let ?p = "parserAt ''```'' ''a'' ['''', ''b'', ''  '', ''c'', ''```'', ''end'']"
  have f: "isFence (currentLine ?p)"
    by (simp add: parserAt_def isFence_def fence_def backtick_def)
  have e: "Script (currTask ?p) = []"
    by (simp add: parserAt_def emptyTask_def)
  have c: "closedBlock ?p [''a'', '''', ''b'', ''  '', ''c''] ''```'' [''end'']"
    by (simp add: closedBlock_def pendingLines_def parserAt_def isFence_def fence_def backtick_def)
  have b: "concat (map (\<lambda>l. l @ [newline])
             (filter (\<lambda>l. TrimSpace l \<noteq> []) [''a'', '''', ''b'', ''  '', ''c'']))
           = ''a\<newline>b\<newline>c\<newline>''"
    by (simp add: eval_strings)
  from fenced_block_script [OF f e, of "[''a'', '''', ''b'', ''  '', ''c'']" "''```''" "[''end'']"] c b
  have "fst (parseCodeBlock ?p) = None
    \<and> Script (currTask (snd (parseCodeBlock ?p))) = ''a\<newline>b\<newline>c\<newline>''"
    by simp
  with f e c show ?thesis
    by simp
qed

text \<open>
  Claim C9: headings of the two styles are interchangeable: in every document,
  replacing a task heading \<open>## build\<close> of level 2 by the line \<open>build\<close> and a line
  of \<open>-\<close> characters, the body being the same, gives the same task.

  The underline form is tested before the marker form, on the line after the
  current one. When the first line of the body is itself a line of \<open>-\<close>, the line
  \<open>## build\<close> is the text of an underline heading, and the two documents give tasks
  of different names and descriptions. And after a heading that is too deep
  \<open>findTaskHeading\<close> passes over the next line unread: a heading \<open>## build\<close> there
  is lost whole, while of the underline form the line of \<open>-\<close> is left and read.
\<close>

theorem marker_underline_counterexample:
  "parseDocument ''# Tasks\<newline>## build\<newline>---\<newline>req: x\<newline>\<newline>'' ''Tasks''
     = Some ([\<lparr>Name = ''## build'', Description = [], Script = [], Env = [], Dir = [],
               DependsOn = [''x''], Inputs = []\<rparr>], None)
   \<and> parseDocument ''# Tasks\<newline>build\<newline>--------\<newline>---\<newline>req: x\<newline>\<newline>'' ''Tasks''
     = Some ([\<lparr>Name = ''build'', Description = [''---''], Script = [], Env = [], Dir = [],
               DependsOn = [''x''], Inputs = []\<rparr>], None)
   \<and> parseDocument ''# Tasks\<newline>### deep\<newline>## build\<newline>'' ''Tasks''
     = Some ([], Some (ErrReadFile None))
   \<and> parseDocument ''# Tasks\<newline>### deep\<newline>build\<newline>-----\<newline>'' ''Tasks''
     = Some ([], Some (ErrNoCommands ''-----''))"
  using eval_marker_then_underline eval_underline_then_underline
    eval_deep_then_marker eval_deep_then_underline
  by (intro conjI)

text \<open>
  An underline is a line that, once trimmed, holds only \<open>-\<close> or only \<open>=\<close>.

  Claim C9, amended, in three parts. The claim is about a heading that is the first
  line after the section heading, and about one that \<open>findTaskHeading\<close> or the
  loop of a task body has as its current line; it is not about a heading that the
  parser passes over unread, as it does the line after a heading that is too deep and
  the lines of a fenced block.
  \<^item> Documents. Let \<open>body\<close> be any text of which the first line scanned, if there is
    one, is not an underline. The document made of the line \<open># Tasks\<close>, the line
    \<open>## build\<close> and \<open>body\<close>, and the document made of the line \<open># Tasks\<close>, the
    line \<open>build\<close>, a line of 1 to 65535 characters \<open>-\<close> and \<open>body\<close>, parsed
    for the section \<open>Tasks\<close>, give the same: the same tasks and the same error, or
    no result for either.
  \<^item> States. Let the line \<open>n\<close> be no underline. Of a parser with \<open>## build\<close> as
    its current line and \<open>n\<close> as the next, and the same parser with the current line
    \<open>build\<close>, a line of one or more \<open>-\<close> next and \<open>n\<close> after that:
    \<open>parseTask\<close> and \<open>Parse\<close> return the same, tasks, error and final state;
    \<open>parseHeading\<close>, not advancing, reads the heading \<open>build\<close> of level 2 in
    both; in a section of level 1 \<open>findTaskHeading\<close> opens the task \<open>build\<close>; and
    in a section of any level from 1 the loop of a task body that has come to either
    state ends there with the same result and leaves the state as it is.
  \<^item> Last line. When the heading is the last line of the input, \<open>Parse\<close> returns
    the same tasks and the same error for both, in a section of any level from 1.
\<close>

theorem marker_underline_interchangeable:
  "(k < 65535
      \<and> (\<forall>n rest. pending (NewScanner body None) = n # rest \<longrightarrow>
             \<not> stringOnlyContains (TrimSpace n) (CHR ''-'')
             \<and> \<not> stringOnlyContains (TrimSpace n) (CHR ''=''))
    \<longrightarrow>
      parseDocument (''# Tasks\<newline>## build\<newline>'' @ body) ''Tasks''
        = parseDocument
            (''# Tasks\<newline>build\<newline>'' @ replicate (Suc k) (CHR ''-'') @ newline # body) ''Tasks'')
   \<and> (\<not> stringOnlyContains (TrimSpace n) (CHR ''-'')
      \<and> \<not> stringOnlyContains (TrimSpace n) (CHR ''='')
    \<longrightarrow>
      parseTask (markerHeading p n) = parseTask (underlineHeading p k n tk)
      \<and> Parse (markerHeading p n) = Parse (underlineHeading p k n tk)
      \<and> parseHeading False (markerHeading p n) = ((True, 2, ''build''), markerHeading p n)
      \<and> parseHeading False (underlineHeading p k n tk)
          = ((True, 2, ''build''), underlineHeading p k n tk)
      \<and> (rootHeadingLevel p = 1 \<longrightarrow>
           fst (findTaskHeading (markerHeading p n)) = (''build'', False, None))
      \<and> (rootHeadingLevel p \<ge> 1 \<longrightarrow>
           parseTaskBody (markerHeading p n)
             = Some ((rootHeadingLevel p = 1, None), markerHeading p n)
           \<and> parseTaskBody (underlineHeading p k n tk)
             = Some ((rootHeadingLevel p = 1, None), underlineHeading p k n tk)))
   \<and> (rootHeadingLevel p \<ge> 1 \<longrightarrow>
        map_option fst
          (Parse (p\<lparr>currentLine := ''## build'', nextLine := ''## build'', reachedEnd := True\<rparr>))
        = map_option fst
            (Parse (p\<lparr>currentLine := ''build'', nextLine := replicate (Suc k) (CHR ''-''),
                      reachedEnd := False, scanner := sc\<lparr>pending := []\<rparr>\<rparr>)))"
proof (intro conjI impI)
  assume "k < 65535
      \<and> (\<forall>n rest. pending (NewScanner body None) = n # rest \<longrightarrow>
             \<not> stringOnlyContains (TrimSpace n) (CHR ''-'')
             \<and> \<not> stringOnlyContains (TrimSpace n) (CHR ''=''))"
  then show "parseDocument (''# Tasks\<newline>## build\<newline>'' @ body) ''Tasks''
        = parseDocument
            (''# Tasks\<newline>build\<newline>'' @ replicate (Suc k) (CHR ''-'') @ newline # body) ''Tasks''"
    using marker_underline_document [of k body] by blast
next
  assume "rootHeadingLevel p \<ge> 1"
  from marker_last_line [OF this] underline_last_line [OF this, where k = k and sc = sc]
  show "map_option fst
          (Parse (p\<lparr>currentLine := ''## build'', nextLine := ''## build'', reachedEnd := True\<rparr>))
        = map_option fst
            (Parse (p\<lparr>currentLine := ''build'', nextLine := replicate (Suc k) (CHR ''-''),
                      reachedEnd := False, scanner := sc\<lparr>pending := []\<rparr>\<rparr>))"
    by (simp only: replicate.simps)
next
  assume n: "\<not> stringOnlyContains (TrimSpace n) (CHR ''-'')
      \<and> \<not> stringOnlyContains (TrimSpace n) (CHR ''='')"
  then have n1: "\<not> stringOnlyContains (TrimSpace n) (CHR ''-'')"
    and n2: "\<not> stringOnlyContains (TrimSpace n) (CHR ''='')"
    by simp_all
  have mA: "currentLine (markerHeading p n) = ''## build''" "nextLine (markerHeading p n) = n"
    "rootHeadingLevel (markerHeading p n) = rootHeadingLevel p"
    by (simp_all add: markerHeading_def)
  have mB: "currentLine (underlineHeading p k n tk) = ''build''"
    "nextLine (underlineHeading p k n tk) = CHR ''-'' # replicate k (CHR ''-'')"
    "rootHeadingLevel (underlineHeading p k n tk) = rootHeadingLevel p"
    by (simp_all add: underlineHeading_def)
  show "parseTask (markerHeading p n) = parseTask (underlineHeading p k n tk)"
    unfolding markerHeading_def underlineHeading_def
    by (rule marker_underline_parseTask(1) [OF n1 n2])
  show "Parse (markerHeading p n) = Parse (underlineHeading p k n tk)"
    unfolding markerHeading_def underlineHeading_def
    by (rule marker_underline_parseTask(2) [OF n1 n2])
  show hA: "parseHeading False (markerHeading p n) = ((True, 2, ''build''), markerHeading p n)"
    using marker_heading_peek(1) [of "markerHeading p n"] n1 n2 mA by simp
  show "parseHeading False (underlineHeading p k n tk)
          = ((True, 2, ''build''), underlineHeading p k n tk)"
    using underline_heading_peek(1) [of "underlineHeading p k n tk" k] mB by simp
  {
    assume root: "rootHeadingLevel p = 1"
    have t1: "TrimSpace ''## build'' = ''## build''"
      and f: "Fields ''## build'' = [''##'', ''build'']"
      and tr: "Trim ''build'' trimValues = ''build''"
      by (simp_all add: eval_strings)
    have c: "Count ''##'' (CHR ''#'') = 2"
      by (simp add: Count_def)
    have "parseHeading True (markerHeading p n)
        = ((True, 2, ''build''), snd (scan (markerHeading p n)))"
      using n1 n2
      by (simp add: markerHeading_def parseHeading_def parseAltHeading_def Let_def t1 f c)
    moreover have "rootHeadingLevel (snd (scan (markerHeading p n))) = 1"
      using root by (simp add: scan_frame mA)
    ultimately show "fst (findTaskHeading (markerHeading p n)) = (''build'', False, None)"
      by (simp add: findTaskHeading.simps [of "markerHeading p n"] tr)
  }
  {
    assume root: "rootHeadingLevel p \<ge> 1"
    show "parseTaskBody (markerHeading p n)
             = Some ((rootHeadingLevel p = 1, None), markerHeading p n)"
      using marker_heading_peek(2) [of "markerHeading p n"] n1 n2 mA root by simp
    show "parseTaskBody (underlineHeading p k n tk)
             = Some ((rootHeadingLevel p = 1, None), underlineHeading p k n tk)"
      using underline_heading_peek(2) [of "underlineHeading p k n tk" k] mB root by simp
  }
qed

theorem marker_underline_interchangeable_witness:
  "(7::nat) < 65535
   \<and> pending (NewScanner ''req: x\<newline>\<newline>'' None) = [''req: x'', '''']
   \<and> \<not> stringOnlyContains (TrimSpace ''req: x'') (CHR ''-'')
   \<and> \<not> stringOnlyContains (TrimSpace ''req: x'') (CHR ''='')
   \<and> parseDocument ''# Tasks\<newline>build\<newline>--------\<newline>req: x\<newline>\<newline>'' ''Tasks''
      = Some ([\<lparr>Name = ''build'', Description = [], Script = [], Env = [], Dir = [],
                 DependsOn = [''x''], Inputs = []\<rparr>], None)
   \<and> map_option fst (Parse (markerHeading (parserAt [] ''--------'' ['''']) ''req: x''))
      = Some ([\<lparr>Name = ''build'', Description = [], Script = [], Env = [], Dir = [],
                 DependsOn = [''x''], Inputs = []\<rparr>], None)
   \<and> map_option fst (Parse (parserAt ''build'' ''--------'' [''req: x'', '''']))
      = Some ([\<lparr>Name = ''build'', Description = [], Script = [], Env = [], Dir = [],
                 DependsOn = [''x''], Inputs = []\<rparr>], None)
   \<and> 1 \<le> rootHeadingLevel (parserAt [] ''--------'' [''''])
   \<and> parseTaskBody (parserAt ''build'' ''--------'' [''req: x'', ''''])
      = Some ((True, None), parserAt ''build'' ''--------'' [''req: x'', ''''])
   \<and> map_option fst (Parse ((parserAt [] ''--------'' [''''])
        \<lparr>currentLine := ''## build'', nextLine := ''## build'', reachedEnd := True\<rparr>))
      = Some ([], Some (ErrNoCommands ''build''))
   \<and> map_option fst (Parse (parserAt ''build'' ''--------'' []))
      = Some ([], Some (ErrNoCommands ''build''))"
proof -
  let ?p = "parserAt [] ''--------'' ['''']"
  have k: "(7::nat) < 65535"
    by simp
  have s: "pending (NewScanner ''req: x\<newline>\<newline>'' None) = [''req: x'', '''']"
    by (simp add: NewScanner_def Let_def dropCR_def maxScanTokenSize_def newline_def)
  have n: "\<not> stringOnlyContains (TrimSpace ''req: x'') (CHR ''-'')
      \<and> \<not> stringOnlyContains (TrimSpace ''req: x'') (CHR ''='')"
    by (simp add: eval_strings)
  from s n have first: "\<forall>n rest. pending (NewScanner ''req: x\<newline>\<newline>'' None) = n # rest \<longrightarrow>
             \<not> stringOnlyContains (TrimSpace n) (CHR ''-'')
             \<and> \<not> stringOnlyContains (TrimSpace n) (CHR ''='')"
    by simp
  have r: "1 \<le> rootHeadingLevel ?p"
    by (simp add: parserAt_def)
  have r1: "rootHeadingLevel ?p = 1"
    by (simp add: parserAt_def)
  have a: "map_option fst (Parse (markerHeading ?p ''req: x''))
      = Some ([\<lparr>Name = ''build'', Description = [], Script = [], Env = [], Dir = [],
                 DependsOn = [''x''], Inputs = []\<rparr>], None)"
    by (simp add: markerHeading_def parserAt_def eval_strings eval_parser)
  have b: "underlineHeading ?p 7 ''req: x'' ''--------''
         = parserAt ''build'' ''--------'' [''req: x'', '''']"
    by (simp add: underlineHeading_def parserAt_def eval_nat_numeral)
  have a': "map_option fst (Parse (?p\<lparr>currentLine := ''## build'', nextLine := ''## build'',
             reachedEnd := True\<rparr>))
      = Some ([], Some (ErrNoCommands ''build''))"
    by (simp add: parserAt_def eval_strings eval_parser)
  have b': "?p\<lparr>currentLine := ''build'', nextLine := replicate (Suc 7) (CHR ''-''),
              reachedEnd := False, scanner := (scanner ?p)\<lparr>pending := []\<rparr>\<rparr>
         = parserAt ''build'' ''--------'' []"
    by (simp add: parserAt_def eval_nat_numeral)
  have d: "''# Tasks\<newline>build\<newline>'' @ replicate (Suc 7) (CHR ''-'') @ newline # ''req: x\<newline>\<newline>''
      = ''# Tasks\<newline>build\<newline>--------\<newline>req: x\<newline>\<newline>''"
    by (simp add: eval_nat_numeral newline_def)
  have d': "''# Tasks\<newline>## build\<newline>'' @ ''req: x\<newline>\<newline>'' = ''# Tasks\<newline>## build\<newline>req: x\<newline>\<newline>''"
    by simp
  note inst = marker_underline_interchangeable
    [where n = "''req: x''" and p = ?p and k = 7 and tk = "''--------''"
      and body = "''req: x\<newline>\<newline>''" and sc = "scanner ?p"]
  from inst k first have "parseDocument (''# Tasks\<newline>## build\<newline>'' @ ''req: x\<newline>\<newline>'') ''Tasks''
        = parseDocument
            (''# Tasks\<newline>build\<newline>'' @ replicate (Suc 7) (CHR ''-'') @ newline # ''req: x\<newline>\<newline>'')
            ''Tasks''"
    by blast
  then have c0: "parseDocument ''# Tasks\<newline>build\<newline>--------\<newline>req: x\<newline>\<newline>'' ''Tasks''
      = Some ([\<lparr>Name = ''build'', Description = [], Script = [], Env = [], Dir = [],
                 DependsOn = [''x''], Inputs = []\<rparr>], None)"
    unfolding d d' using eval_req_only by simp
  from inst n have "Parse (markerHeading ?p ''req: x'')
      = Parse (underlineHeading ?p 7 ''req: x'' ''--------'')"
    by blast
  with a b
  have c: "map_option fst (Parse (parserAt ''build'' ''--------'' [''req: x'', '''']))
      = Some ([\<lparr>Name = ''build'', Description = [], Script = [], Env = [], Dir = [],
                 DependsOn = [''x''], Inputs = []\<rparr>], None)"
    by simp
  from inst n r have "parseTaskBody (underlineHeading ?p 7 ''req: x'' ''--------'')
      = Some ((rootHeadingLevel ?p = 1, None), underlineHeading ?p 7 ''req: x'' ''--------'')"
    by blast
  then have c2: "parseTaskBody (parserAt ''build'' ''--------'' [''req: x'', ''''])
      = Some ((True, None), parserAt ''build'' ''--------'' [''req: x'', ''''])"
    unfolding b using r1 by simp
  from inst r have "map_option fst
          (Parse (?p\<lparr>currentLine := ''## build'', nextLine := ''## build'', reachedEnd := True\<rparr>))
        = map_option fst
            (Parse (?p\<lparr>currentLine := ''build'', nextLine := replicate (Suc 7) (CHR ''-''),
                      reachedEnd := False, scanner := (scanner ?p)\<lparr>pending := []\<rparr>\<rparr>))"
    by blast
  with a' b'
  have c': "map_option fst (Parse (parserAt ''build'' ''--------'' []))
      = Some ([], Some (ErrNoCommands ''build''))"
    by simp
  from k s n c0 a c r c2 a' c' show ?thesis
    by simp
qed

text \<open>
  Claim C10: for every recognised attribute line with a list value (\<open>req\<close>,
  \<open>requires\<close>, \<open>env\<close>, \<open>environment\<close>, \<open>inputs\<close>), an empty token of the
  comma-separated value (between two commas, first, last, or the whole of an empty
  value) stays in the list as an empty string; \<open>req: a,,b\<close> appends
  \<open>["a", "", "b"]\<close> to \<open>DependsOn\<close>.

  The line is recognised and its field gains the pieces of \<open>Split\<close>, each trimmed,
  in order: one piece more than the value has commas, and joined by commas the pieces
  are the value again, so that no piece, empty or not, is dropped.
\<close>

theorem list_attribute_keeps_empty_tokens:
  assumes "Cut (currentLine p) (CHR '':'') = (a, rest, True)"
    and "attMap (ToLower (Trim a trimValues)) = Some ty"
    and "ty \<noteq> AttributeTypeDir"
  shows "fst (parseAttribute p) = (True, None)
    \<and> (ty = AttributeTypeReq \<longrightarrow>
          DependsOn (currTask (snd (parseAttribute p)))
            = DependsOn (currTask p) @ map (\<lambda>v. Trim v trimValues) (Split rest (CHR '','')))
    \<and> (ty = AttributeTypeEnv \<longrightarrow>
          Env (currTask (snd (parseAttribute p)))
            = Env (currTask p) @ map (\<lambda>v. Trim v trimValues) (Split rest (CHR '','')))
    \<and> (ty = AttributeTypeInp \<longrightarrow>
          Inputs (currTask (snd (parseAttribute p)))
            = Inputs (currTask p) @ map (\<lambda>v. Trim v trimValues) (Split rest (CHR '','')))
    \<and> length (map (\<lambda>v. Trim v trimValues) (Split rest (CHR '',''))) = Suc (Count rest (CHR '',''))
    \<and> Join (Split rest (CHR '','')) '','' = rest
    \<and> Trim [] trimValues = []"
  using assms
  by (cases ty)
    (simp_all add: parseAttribute_def Let_def scan_frame Split_length Join_Split Trim_Nil)

theorem list_attribute_keeps_empty_tokens_witness:
  "Cut (currentLine (parserAt ''req: a,,b'' ''x'' [])) (CHR '':'') = (''req'', '' a,,b'', True)
   \<and> attMap (ToLower (Trim ''req'' trimValues)) = Some AttributeTypeReq
   \<and> DependsOn (currTask (snd (parseAttribute (parserAt ''req: a,,b'' ''x'' []))))
       = [''a'', [], ''b'']
   \<and> Cut (currentLine (parserAt ''env:'' ''x'' [])) (CHR '':'') = (''env'', [], True)
   \<and> attMap (ToLower (Trim ''env'' trimValues)) = Some AttributeTypeEnv
   \<and> Env (currTask (snd (parseAttribute (parserAt ''env:'' ''x'' [])))) = [[]]"
proof -
  have c1: "Cut (currentLine (parserAt ''req: a,,b'' ''x'' [])) (CHR '':'') = (''req'', '' a,,b'', True)"
    by (simp add: parserAt_def)
  have m1: "attMap (ToLower (Trim ''req'' trimValues)) = Some AttributeTypeReq"
    by (simp add: eval_strings)
  have t1: "map (\<lambda>v. Trim v trimValues) (Split '' a,,b'' (CHR '','')) = [''a'', [], ''b'']"
    by (simp add: eval_strings)
  have d1: "DependsOn (currTask (parserAt ''req: a,,b'' ''x'' [])) = []"
    by (simp add: parserAt_def emptyTask_def)
  have c2: "Cut (currentLine (parserAt ''env:'' ''x'' [])) (CHR '':'') = (''env'', [], True)"
    by (simp add: parserAt_def)
  have m2: "attMap (ToLower (Trim ''env'' trimValues)) = Some AttributeTypeEnv"
    by (simp add: eval_strings)
  have t2: "map (\<lambda>v. Trim v trimValues) (Split [] (CHR '','')) = [[]]"
    by (simp add: eval_strings)
  have d2: "Env (currTask (parserAt ''env:'' ''x'' [])) = []"
    by (simp add: parserAt_def emptyTask_def)
  from list_attribute_keeps_empty_tokens [OF c1 m1] t1 d1
  have r1: "DependsOn (currTask (snd (parseAttribute (parserAt ''req: a,,b'' ''x'' []))))
       = [''a'', [], ''b'']"
    by simp
  from list_attribute_keeps_empty_tokens [OF c2 m2] t2 d2
  have r2: "Env (currTask (snd (parseAttribute (parserAt ''env:'' ''x'' [])))) = [[]]"
    by simp
  from c1 m1 r1 c2 m2 r2 show ?thesis
    by (intro conjI)
qed

end
